theory Spec2Isabelle
  imports Complex_Main
begin

section \<open>The load equalizer of a parallel rendering compound\<close>

text \<open>
  A shallow embedding of \<^verbatim>\<open>LoadEqualizer\<close> (namespace \<^verbatim>\<open>eq::server\<close>).

  Conventions of the embedding.
  \<^item> A \<^verbatim>\<open>float\<close> is the real number it stands for, and every \<^verbatim>\<open>float\<close> operation of the
    source is the exact operation followed by \<open>fl\<close>, the rounding of binary32 (24 bits,
    to nearest, ties to even, gradual underflow). Infinities and NaN are not values of
    the model: a result beyond the largest \<^verbatim>\<open>float\<close> or a division by zero is outside it,
    and the theorems that depend on such a result exclude it in their hypotheses.
  \<^item> An \<^verbatim>\<open>int64_t\<close> is an \<^typ>\<open>int\<close>; a sum or difference of the source is followed by
    \<open>wrap64\<close>, the reduction to the range of \<^verbatim>\<open>int64_t\<close> (the overflow itself is undefined
    in C++; the theorems that depend on it assume that none happens). \<^verbatim>\<open>uint32_t\<close> frame
    numbers and task identifiers, which are only compared, are \<^typ>\<open>nat\<close>.
  \<^item> Pointers to compounds and channels are identifiers of type \<^typ>\<open>nat\<close>, the null
    pointer being \<open>0\<close>; the objects live in stores that are part of the state.
  \<^item> \<^verbatim>\<open>EQASSERT\<close>, \<^verbatim>\<open>EQASSERTINFO\<close> and \<^verbatim>\<open>EQUNIMPLEMENTED\<close> only report in a release
    build and are not branches of the model; \<^verbatim>\<open>EQLOG\<close> output is not modelled.
  \<^item> A function that has no result (it does not return, or it reads the front or the
    back of an empty deque, or casts a \<^verbatim>\<open>float\<close> out of the range of \<^verbatim>\<open>uint32_t\<close>)
    returns \<open>None\<close>.
\<close>

subsection \<open>Machine numbers\<close>

text \<open>
  The rounding of binary32: \<open>ulp32 v\<close> is the distance of the \<^verbatim>\<open>float\<close> values around \<open>v\<close>
  (the exponent is at least \<open>-126\<close>, below that the values are subnormal), and \<open>v\<close> is
  rounded to the nearest multiple of it, a tie going to the even multiple.
\<close>

definition roundEven :: "real \<Rightarrow> int" where
  "roundEven v =
     (let f = \<lfloor>v\<rfloor>
      in if v - of_int f < 1 / 2 then f
         else if v - of_int f > 1 / 2 then f + 1
         else if even f then f else f + 1)"

definition ulp32 :: "real \<Rightarrow> real" where
  "ulp32 v = 2 powr of_int (max \<lfloor>log 2 \<bar>v\<bar>\<rfloor> (- 126) - 23)"

definition fl :: "real \<Rightarrow> real" where
  "fl v = (if v = 0 then 0 else of_int (roundEven (v / ulp32 v)) * ulp32 v)"

definition INT64_MAX :: int where
  "INT64_MAX = 2 ^ 63 - 1"

definition wrap64 :: "int \<Rightarrow> int" where
  "wrap64 v = (v + 2 ^ 63) mod 2 ^ 64 - 2 ^ 63"

text \<open>
  \<^verbatim>\<open>static_cast< uint32_t >\<close> of a \<^verbatim>\<open>float\<close> drops the fraction; it is undefined for a value
  that is \<open>-1\<close> or less, or \<open>2 ^ 32\<close> or more.
\<close>

definition to_uint32 :: "real \<Rightarrow> nat option" where
  "to_uint32 v = (if - 1 < v \<and> v < 2 ^ 32 then Some (nat \<lfloor>v\<rfloor>) else None)"

definition epsilon :: real where
  "epsilon = 1 / 2 ^ 23"

subsection \<open>Viewport and Range\<close>

record Viewport =
  vp_x :: real
  vp_y :: real
  vp_w :: real
  vp_h :: real

record Range =
  r_start :: real
  r_end :: real

text \<open>
  Modelled from the spec: the classes \<^verbatim>\<open>eq::Viewport\<close> and \<^verbatim>\<open>eq::Range\<close> are declared
  in headers that are not part of the sources. The spec gives \<open>FULL = (0,0,1,1)\<close>,
  \<open>ALL = (0,1)\<close>, \<open>x + w = xEnd\<close>, \<open>y + h = yEnd\<close>, \<open>hasArea \<longleftrightarrow> w > 0 \<and> h > 0\<close>,
  \<open>hasData \<longleftrightarrow> end > start\<close> and \<open>load = time / viewport.area\<close>; the default-constructed
  viewport and range are the root viewport \<open>FULL\<close> and the root range \<open>ALL\<close>. The sums
  and the product are \<^verbatim>\<open>float\<close> operations.
\<close>

definition Viewport_FULL :: Viewport where
  "Viewport_FULL = \<lparr>vp_x = 0, vp_y = 0, vp_w = 1, vp_h = 1\<rparr>"

definition Range_ALL :: Range where
  "Range_ALL = \<lparr>r_start = 0, r_end = 1\<rparr>"

definition getXEnd :: "Viewport \<Rightarrow> real" where
  "getXEnd v = fl (vp_x v + vp_w v)"

definition getYEnd :: "Viewport \<Rightarrow> real" where
  "getYEnd v = fl (vp_y v + vp_h v)"

definition getArea :: "Viewport \<Rightarrow> real" where
  "getArea v = fl (vp_w v * vp_h v)"

definition hasArea :: "Viewport \<Rightarrow> bool" where
  "hasArea v \<longleftrightarrow> vp_w v > 0 \<and> vp_h v > 0"

definition hasData :: "Range \<Rightarrow> bool" where
  "hasData r \<longleftrightarrow> r_end r > r_start r"

subsection \<open>Observations, frame records and statistics\<close>

record Data =
  d_channel :: nat
  d_taskID :: nat
  d_vp :: Viewport
  d_range :: Range
  d_time :: int
  d_load :: real

type_synonym LBDatas = "Data list"
type_synonym LBFrameData = "nat \<times> LBDatas"

datatype StatType =
    CHANNEL_CLEAR
  | CHANNEL_DRAW
  | CHANNEL_READBACK
  | CHANNEL_FRAME_TRANSMIT
  | CHANNEL_ASSEMBLE
  | STAT_OTHER

record Statistic =
  s_task :: nat
  s_type :: StatType
  s_startTime :: int
  s_endTime :: int

subsection \<open>notifyLoadData\<close>

text \<open>
  The innermost loop of \<^verbatim>\<open>notifyLoadData\<close>, over the statistics. The accumulator is
  \<open>(startTime, endTime, timeTransmit)\<close>; the flag \<^verbatim>\<open>loadSet\<close> ends the loop, so the
  \<^verbatim>\<open>CHANNEL_ASSEMBLE\<close> case returns the accumulator.
\<close>

fun gatherLoad :: "nat \<Rightarrow> Statistic list \<Rightarrow> int \<times> int \<times> int \<Rightarrow> int \<times> int \<times> int" where
  "gatherLoad taskID [] acc = acc"
| "gatherLoad taskID (stat # stats) (startTime, endTime, timeTransmit) =
     (if s_task stat \<noteq> taskID then gatherLoad taskID stats (startTime, endTime, timeTransmit)
      else (case s_type stat of
              CHANNEL_CLEAR \<Rightarrow>
                gatherLoad taskID stats
                  (min startTime (s_startTime stat), max endTime (s_endTime stat), timeTransmit)
            | CHANNEL_DRAW \<Rightarrow>
                gatherLoad taskID stats
                  (min startTime (s_startTime stat), max endTime (s_endTime stat), timeTransmit)
            | CHANNEL_READBACK \<Rightarrow>
                gatherLoad taskID stats
                  (min startTime (s_startTime stat), max endTime (s_endTime stat), timeTransmit)
            | CHANNEL_FRAME_TRANSMIT \<Rightarrow>
                gatherLoad taskID stats
                  (startTime, endTime,
                   wrap64 (timeTransmit + wrap64 (s_endTime stat - s_startTime stat)))
            | CHANNEL_ASSEMBLE \<Rightarrow> (startTime, endTime, timeTransmit)
            | STAT_OTHER \<Rightarrow> gatherLoad taskID stats (startTime, endTime, timeTransmit)))"

text \<open>
  What happens to the observation found for the channel: nothing when its viewport has
  no area or when \<^verbatim>\<open>startTime\<close> still holds its initial value, otherwise time and load
  are written. The load is the time, converted to \<^verbatim>\<open>float\<close>, divided by the area.
\<close>

definition setLoad :: "Statistic list \<Rightarrow> Data \<Rightarrow> Data" where
  "setLoad stats data =
     (if getArea (d_vp data) \<le> 0 then data
      else (case gatherLoad (d_taskID data) stats (INT64_MAX, 0, 0) of
              (startTime, endTime, timeTransmit) \<Rightarrow>
                if startTime = INT64_MAX then data
                else (let t = max (max (wrap64 (endTime - startTime)) 1) timeTransmit
                      in data\<lparr>d_time := t,
                               d_load := fl (fl (of_int t) / getArea (d_vp data))\<rparr>)))"

text \<open>
  The loop over the items of one record. \<open>None\<close>: no item is for the channel, the outer
  loop goes on; \<open>Some items'\<close>: an item was found and the function returned.
\<close>

fun scanItems :: "nat \<Rightarrow> Statistic list \<Rightarrow> LBDatas \<Rightarrow> LBDatas option" where
  "scanItems chan stats [] = None"
| "scanItems chan stats (data # items) =
     (if d_channel data \<noteq> chan then map_option (\<lambda>r. data # r) (scanItems chan stats items)
      else Some (setLoad stats data # items))"

fun scanHistory :: "nat \<Rightarrow> nat \<Rightarrow> Statistic list \<Rightarrow> LBFrameData list \<Rightarrow> LBFrameData list" where
  "scanHistory chan frameNumber stats [] = []"
| "scanHistory chan frameNumber stats (frameData # hist) =
     (if fst frameData \<noteq> frameNumber
      then frameData # scanHistory chan frameNumber stats hist
      else (case scanItems chan stats (snd frameData) of
              None \<Rightarrow> frameData # scanHistory chan frameNumber stats hist
            | Some items' \<Rightarrow> (fst frameData, items') # hist))"

subsection \<open>checkHistory\<close>

definition isComplete :: "LBDatas \<Rightarrow> bool" where
  "isComplete items \<longleftrightarrow> (\<forall>data \<in> set items. \<not> d_time data < 0)"

text \<open>
  The first loop of \<^verbatim>\<open>_checkHistory\<close> runs over the history from the youngest record and
  stops as soon as \<^verbatim>\<open>useFrame\<close> is not \<open>0\<close>; \<open>findUseFrame\<close> takes the reversed history.
\<close>

fun findUseFrame :: "LBFrameData list \<Rightarrow> nat \<Rightarrow> nat" where
  "findUseFrame [] useFrame = useFrame"
| "findUseFrame (frameData # rest) useFrame =
     (if useFrame \<noteq> 0 then useFrame
      else findUseFrame rest (if isComplete (snd frameData) then fst frameData else useFrame))"

fun popOld :: "nat \<Rightarrow> LBFrameData list \<Rightarrow> LBFrameData list" where
  "popOld useFrame [] = []"
| "popOld useFrame (frameData # hist) =
     (if fst frameData < useFrame then popOld useFrame hist else frameData # hist)"

text \<open>
  Modelled from the spec: the constructor of \<^verbatim>\<open>Data\<close> is in the header, which is not part
  of the sources. The code asserts \<open>taskID = 0\<close> and \<open>channel = 0\<close> on the fresh element
  and writes its time and load; the viewport and the range are the default-constructed
  ones.
\<close>

definition fakeSet :: LBFrameData where
  "fakeSet = (0, [\<lparr>d_channel = 0, d_taskID = 0, d_vp = Viewport_FULL, d_range = Range_ALL,
                   d_time = 1, d_load = 1\<rparr>])"

definition checkHistory :: "LBFrameData list \<Rightarrow> LBFrameData list" where
  "checkHistory hist =
     (let useFrame = findUseFrame (rev hist) 0;
          hist' = popOld useFrame hist
      in if hist' = [] then [fakeSet] else hist')"

subsection \<open>The split tree\<close>

datatype Mode = MODE_DB | MODE_HORIZONTAL | MODE_VERTICAL | MODE_2D

record NodeInfo =
  n_splitMode :: Mode
  n_time :: real
  n_usage :: real
  n_maxSize :: "int \<times> int"
  n_boundary2i :: "int \<times> int"
  n_boundaryf :: real

text \<open>
  A \<^verbatim>\<open>Node\<close> of the source is a leaf when its \<^verbatim>\<open>compound\<close> pointer is set and an inner node
  with both children otherwise; the other members are the same for both.
\<close>

datatype Node = Leaf nat NodeInfo | Inner Node Node NodeInfo

fun nodeInfo :: "Node \<Rightarrow> NodeInfo" where
  "nodeInfo (Leaf c i) = i"
| "nodeInfo (Inner l r i) = i"

fun leafCompounds :: "Node \<Rightarrow> nat list" where
  "leafCompounds (Leaf c i) = [c]"
| "leafCompounds (Inner l r i) = leafCompounds l @ leafCompounds r"

text \<open>
  \<^verbatim>\<open>_buildTree\<close>. The constructor of \<^verbatim>\<open>Node\<close> is in the header, which is not part of the
  sources: \<open>node0\<close> is what it leaves in the members, whatever that is. On an empty list
  the source recurses on two empty lists for ever: no result. The channels that get this
  equalizer as a listener are those of \<open>leafCompounds\<close> of the result, in that order.
\<close>

fun buildTree :: "NodeInfo \<Rightarrow> Mode \<Rightarrow> nat list \<Rightarrow> Node option" where
  "buildTree node0 m [] = None"
| "buildTree node0 m [compound] =
     Some (Leaf compound
             (node0\<lparr>n_splitMode := (if m = MODE_2D then MODE_VERTICAL else m)\<rparr>))"
| "buildTree node0 m (c1 # c2 # cs) =
     (let compounds = c1 # c2 # cs;
          middle = length compounds div 2
      in case buildTree node0 m (take middle compounds) of
           None \<Rightarrow> None
         | Some l \<Rightarrow>
             (case buildTree node0 m (drop middle compounds) of
                None \<Rightarrow> None
              | Some r \<Rightarrow>
                  Some (Inner l r
                    (node0\<lparr>n_splitMode :=
                         (if m = MODE_2D
                          then (if n_splitMode (nodeInfo r) = MODE_VERTICAL
                                then MODE_HORIZONTAL else MODE_VERTICAL)
                          else m),
                       n_time := 0\<rparr>))))"

subsection \<open>Compounds and the state of the equalizer\<close>

record Compound =
  c_children :: "nat list"
  c_running :: bool
  c_usage :: real
  c_taskID :: nat
  c_channel :: nat
  c_inheritPVP :: "int \<times> int"
  c_vp :: Viewport
  c_range :: Range

text \<open>
  The members of \<^verbatim>\<open>LoadEqualizer\<close> (\<open>eq_frozen\<close> and \<open>eq_compound\<close> are what \<^verbatim>\<open>isFrozen()\<close>
  and \<^verbatim>\<open>getCompound()\<close> of the base class return), followed by what it reaches: the
  compounds, the width and height of each channel's pixel viewport, the channels this
  equalizer was added to as a listener, and what the constructors of the header leave
  in a new \<^verbatim>\<open>Node\<close> and in the load of a new \<^verbatim>\<open>Data\<close>.
\<close>

record LoadEqualizer =
  eq_mode :: Mode
  eq_damping :: real
  eq_tree :: "Node option"
  eq_boundary2i :: "int \<times> int"
  eq_boundaryf :: real
  eq_history :: "LBFrameData list"
  eq_frozen :: bool
  eq_compound :: nat
  compounds :: "nat \<Rightarrow> Compound"
  chanPVP :: "nat \<Rightarrow> int \<times> int"
  listening :: "nat list"
  new_Node :: NodeInfo
  new_Data_load :: real

subsection \<open>Target times\<close>

text \<open>
  The items of \<^verbatim>\<open>_history.front()\<close>. \<^verbatim>\<open>_assignTargetTimes\<close> is called by \<^verbatim>\<open>_computeSplit()\<close>
  only, which has read the front before: the history is not empty when this is
  evaluated in a run of the program.
\<close>

definition frontItems :: "LoadEqualizer \<Rightarrow> LBDatas" where
  "frontItems s = (case eq_history s of [] \<Rightarrow> [] | frameData # _ \<Rightarrow> snd frameData)"

fun assignTargetTimes :: "LoadEqualizer \<Rightarrow> Node \<Rightarrow> real \<Rightarrow> real \<Rightarrow> Node \<times> real" where
  "assignTargetTimes s (Leaf c i) totalTime resourceTime =
     (let compound = compounds s c;
          usage = (if c_running compound then c_usage compound else 0);
          time0 = fl (resourceTime * usage);
          time = (if usage > 0
                  then (case find (\<lambda>data. c_taskID compound = d_taskID data) (frontItems s) of
                          None \<Rightarrow> time0
                        | Some data \<Rightarrow>
                            fl (fl (fl (1 - eq_damping s) * time0) +
                                fl (eq_damping s * fl (of_int (d_time data)))))
                  else time0);
          nodeTime = min time totalTime
      in (Leaf c (i\<lparr>n_maxSize := chanPVP s (c_channel compound),
                     n_boundaryf := eq_boundaryf s,
                     n_boundary2i := eq_boundary2i s,
                     n_time := nodeTime,
                     n_usage := usage\<rparr>),
          fl (totalTime - nodeTime)))"
| "assignTargetTimes s (Inner l r i) totalTime resourceTime =
     (case assignTargetTimes s l totalTime resourceTime of
        (l', timeLeft1) \<Rightarrow>
          (case assignTargetTimes s r timeLeft1 resourceTime of
             (r', timeLeft) \<Rightarrow>
               (let L = nodeInfo l'; R = nodeInfo r';
                    i1 = i\<lparr>n_time := fl (n_time L + n_time R),
                           n_usage := fl (n_usage L + n_usage R)\<rparr>;
                    i2 = (case n_splitMode i of
                            MODE_VERTICAL \<Rightarrow>
                              i1\<lparr>n_maxSize := (fst (n_maxSize L) + fst (n_maxSize R),
                                                min (snd (n_maxSize L)) (snd (n_maxSize R))),
                                  n_boundary2i := (fst (n_boundary2i L) + fst (n_boundary2i R),
                                                   max (snd (n_boundary2i L)) (snd (n_boundary2i R))),
                                  n_boundaryf := max (n_boundaryf L) (n_boundaryf R)\<rparr>
                          | MODE_HORIZONTAL \<Rightarrow>
                              i1\<lparr>n_maxSize := (min (fst (n_maxSize L)) (fst (n_maxSize R)),
                                                snd (n_maxSize L) + snd (n_maxSize R)),
                                  n_boundary2i := (max (fst (n_boundary2i L)) (fst (n_boundary2i R)),
                                                   snd (n_boundary2i L) + snd (n_boundary2i R)),
                                  n_boundaryf := max (n_boundaryf L) (n_boundaryf R)\<rparr>
                          | MODE_DB \<Rightarrow>
                              i1\<lparr>n_boundary2i := (max (fst (n_boundary2i L)) (fst (n_boundary2i R)),
                                                   max (snd (n_boundary2i L)) (snd (n_boundary2i R))),
                                  n_boundaryf := fl (n_boundaryf L + n_boundaryf R)\<rparr>
                          | MODE_2D \<Rightarrow> i1)
                in (Inner l' r' i2, timeLeft))))"

text \<open>\<^verbatim>\<open>0.0001f\<close> is the \<^verbatim>\<open>float\<close> nearest to one ten-thousandth.\<close>

fun assignLeftoverTime :: "Node \<Rightarrow> real \<Rightarrow> Node" where
  "assignLeftoverTime (Leaf c i) time =
     (if n_usage i > 0 then Leaf c (i\<lparr>n_time := fl (n_time i + time)\<rparr>) else Leaf c i)"
| "assignLeftoverTime (Inner l r i) time =
     (if n_usage i > 0
      then (let leftTime0 = fl (fl (time * n_usage (nodeInfo l)) / n_usage i);
                rightTime0 = fl (time - leftTime0);
                leftTime = (if fl (time - leftTime0) < fl (1 / 10000) then time
                            else if fl (time - rightTime0) < fl (1 / 10000) then 0
                            else leftTime0);
                rightTime = (if fl (time - leftTime0) < fl (1 / 10000) then 0
                             else if fl (time - rightTime0) < fl (1 / 10000) then time
                             else rightTime0);
                l' = assignLeftoverTime l leftTime;
                r' = assignLeftoverTime r rightTime
            in Inner l' r' (i\<lparr>n_time := fl (n_time (nodeInfo l') + n_time (nodeInfo r'))\<rparr>))
      else Inner l r i)"

subsection \<open>The split solver\<close>

definition removeEmpty :: "LBDatas \<Rightarrow> LBDatas" where
  "removeEmpty items = filter (\<lambda>data. \<not> (\<not> hasArea (d_vp data) \<or> \<not> hasData (d_range data))) items"

text \<open>
  The three passes of one round of the loop of a vertical split: the items that end
  right of the split position, the next end of an item (at most \<open>1\<close>), and the load of
  the items that begin left of it, weighted by their share of the height of \<open>vp\<close>. The
  last pass stops at the first item that begins at or after \<open>currentPos\<close>.
\<close>

definition pruneX :: "real \<Rightarrow> LBDatas \<Rightarrow> LBDatas" where
  "pruneX splitPos workingSet = filter (\<lambda>data. getXEnd (d_vp data) > splitPos) workingSet"

definition nextPosX :: "LBDatas \<Rightarrow> real" where
  "nextPosX workingSet = fold (\<lambda>data currentPos. min currentPos (getXEnd (d_vp data))) workingSet 1"

fun loadInX :: "Viewport \<Rightarrow> real \<Rightarrow> LBDatas \<Rightarrow> real \<Rightarrow> real" where
  "loadInX vp currentPos [] currentLoad = currentLoad"
| "loadInX vp currentPos (data # workingSet) currentLoad =
     (if vp_x (d_vp data) \<ge> currentPos then currentLoad
      else (let yContrib0 = vp_h (d_vp data);
                yContrib1 = (if vp_y (d_vp data) < vp_y vp
                             then fl (yContrib0 - fl (vp_y vp - vp_y (d_vp data))) else yContrib0);
                dataEnd = getYEnd (d_vp data);
                vpEnd = getYEnd vp;
                yContrib = (if dataEnd > vpEnd then fl (yContrib1 - fl (dataEnd - vpEnd))
                            else yContrib1)
            in loadInX vp currentPos workingSet
                 (if yContrib > 0
                  then fl (currentLoad + fl (d_load data * fl (yContrib / vp_h vp)))
                  else currentLoad)))"

text \<open>
  The loop itself. It need not end (a viewport that reaches beyond \<open>1\<close> can keep the
  split position at \<open>1\<close> for ever), so it is a partial function: \<open>None\<close> when it
  does not return, the final split position otherwise.
\<close>

partial_function (option) splitLoopX :: "Viewport \<Rightarrow> real \<Rightarrow> real \<Rightarrow> LBDatas \<Rightarrow> real option" where
  "splitLoopX vp timeLeft splitPos workingSet =
     (if timeLeft > epsilon \<and> splitPos < getXEnd vp \<and> workingSet \<noteq> []
      then (let newSet = pruneX splitPos workingSet;
                currentPos = nextPosX newSet;
                currentLoad = loadInX vp currentPos newSet 0;
                width = fl (currentPos - splitPos);
                area = fl (width * vp_h vp);
                currentTime = fl (area * currentLoad)
            in if currentTime \<ge> timeLeft
               then splitLoopX vp 0 (fl (splitPos + fl (fl (width * timeLeft) / currentTime))) newSet
               else splitLoopX vp (fl (timeLeft - currentTime)) currentPos newSet)
      else Some splitPos)"

text \<open>
  Minimum and maximum sizes of a vertical split, then the final clamp to \<open>vp\<close>. \<open>pvpW\<close>
  is the width of the root's pixel viewport as a \<^verbatim>\<open>float\<close>.
\<close>

definition clampX :: "NodeInfo \<Rightarrow> NodeInfo \<Rightarrow> NodeInfo \<Rightarrow> Viewport \<Rightarrow> real \<Rightarrow> real \<Rightarrow> real option" where
  "clampX node left right vp pvpW splitPos0 =
     (let end = getXEnd vp;
          boundary = fl (fl (of_int (fst (n_boundary2i node))) / pvpW);
          splitPos1 =
            (if n_usage left = 0 then Some (vp_x vp)
             else if n_usage right = 0 then Some end
             else if boundary > 0
             then (let lengthRight = fl (getXEnd vp - splitPos0);
                       lengthLeft = fl (splitPos0 - vp_x vp);
                       maxRight = fl (fl (of_int (fst (n_maxSize right))) / pvpW);
                       maxLeft = fl (fl (of_int (fst (n_maxSize left))) / pvpW);
                       splitPosA = (if lengthRight > maxRight then fl (end - maxRight)
                                    else if lengthLeft > maxLeft then fl (vp_x vp + maxLeft)
                                    else splitPos0);
                       splitPosB = (if fl (splitPosA - vp_x vp) < boundary
                                    then fl (vp_x vp + boundary) else splitPosA);
                       splitPosC = (if fl (end - splitPosB) < boundary
                                    then fl (end - boundary) else splitPosB)
                   in map_option (\<lambda>ratio. fl (fl (of_nat ratio) * boundary))
                        (to_uint32 (fl (fl (splitPosC / boundary) + 1 / 2))))
             else Some splitPos0)
      in map_option (\<lambda>splitPos. min (max splitPos (vp_x vp)) end) splitPos1)"

text \<open>
  The correction of the width of the right child (fix 2994111): the loop adds
  \<open>epsilon\<close> to \<open>w\<close> until \<open>x + w\<close> reaches \<open>end\<close>. For a large \<open>w\<close> the sum is rounded
  back to \<open>w\<close> and the loop does not end.
\<close>

partial_function (option) growW :: "real \<Rightarrow> real \<Rightarrow> real \<Rightarrow> real option" where
  "growW x w end = (if fl (x + w) < end then growW x (fl (w + epsilon)) end else Some w)"

text \<open>The same pieces for a horizontal split, with \<open>x\<close> and \<open>y\<close> exchanged.\<close>

definition pruneY :: "real \<Rightarrow> LBDatas \<Rightarrow> LBDatas" where
  "pruneY splitPos workingSet = filter (\<lambda>data. getYEnd (d_vp data) > splitPos) workingSet"

definition nextPosY :: "LBDatas \<Rightarrow> real" where
  "nextPosY workingSet = fold (\<lambda>data currentPos. min currentPos (getYEnd (d_vp data))) workingSet 1"

fun loadInY :: "Viewport \<Rightarrow> real \<Rightarrow> LBDatas \<Rightarrow> real \<Rightarrow> real" where
  "loadInY vp currentPos [] currentLoad = currentLoad"
| "loadInY vp currentPos (data # workingSet) currentLoad =
     (if vp_y (d_vp data) \<ge> currentPos then currentLoad
      else (let xContrib0 = vp_w (d_vp data);
                xContrib1 = (if vp_x (d_vp data) < vp_x vp
                             then fl (xContrib0 - fl (vp_x vp - vp_x (d_vp data))) else xContrib0);
                dataEnd = getXEnd (d_vp data);
                vpEnd = getXEnd vp;
                xContrib = (if dataEnd > vpEnd then fl (xContrib1 - fl (dataEnd - vpEnd))
                            else xContrib1)
            in loadInY vp currentPos workingSet
                 (if xContrib > 0
                  then fl (currentLoad + fl (d_load data * fl (xContrib / vp_w vp)))
                  else currentLoad)))"

partial_function (option) splitLoopY :: "Viewport \<Rightarrow> real \<Rightarrow> real \<Rightarrow> LBDatas \<Rightarrow> real option" where
  "splitLoopY vp timeLeft splitPos workingSet =
     (if timeLeft > epsilon \<and> splitPos < getYEnd vp \<and> workingSet \<noteq> []
      then (let newSet = pruneY splitPos workingSet;
                currentPos = nextPosY newSet;
                currentLoad = loadInY vp currentPos newSet 0;
                height = fl (currentPos - splitPos);
                area = fl (height * vp_w vp);
                currentTime = fl (area * currentLoad)
            in if currentTime \<ge> timeLeft
               then splitLoopY vp 0 (fl (splitPos + fl (fl (height * timeLeft) / currentTime))) newSet
               else splitLoopY vp (fl (timeLeft - currentTime)) currentPos newSet)
      else Some splitPos)"

definition clampY :: "NodeInfo \<Rightarrow> NodeInfo \<Rightarrow> NodeInfo \<Rightarrow> Viewport \<Rightarrow> real \<Rightarrow> real \<Rightarrow> real option" where
  "clampY node left right vp pvpH splitPos0 =
     (let end = getYEnd vp;
          boundary = fl (fl (of_int (snd (n_boundary2i node))) / pvpH);
          splitPos1 =
            (if n_usage left = 0 then Some (vp_y vp)
             else if n_usage right = 0 then Some end
             else if boundary > 0
             then (let lengthRight = fl (getYEnd vp - splitPos0);
                       lengthLeft = fl (splitPos0 - vp_y vp);
                       maxRight = fl (fl (of_int (snd (n_maxSize right))) / pvpH);
                       maxLeft = fl (fl (of_int (snd (n_maxSize left))) / pvpH);
                       splitPosA = (if lengthRight > maxRight then fl (end - maxRight)
                                    else if lengthLeft > maxLeft then fl (vp_y vp + maxLeft)
                                    else splitPos0);
                       splitPosB = (if fl (splitPosA - vp_y vp) < boundary
                                    then fl (vp_y vp + boundary) else splitPosA);
                       splitPosC = (if fl (end - splitPosB) < boundary
                                    then fl (end - boundary) else splitPosB)
                   in map_option (\<lambda>ratio. fl (fl (of_nat ratio) * boundary))
                        (to_uint32 (fl (fl (splitPosC / boundary) + 1 / 2))))
             else Some splitPos0)
      in map_option (\<lambda>splitPos. min (max splitPos (vp_y vp)) end) splitPos1)"

definition growH :: "real \<Rightarrow> real \<Rightarrow> real \<Rightarrow> real option" where
  "growH y h end = growW y h end"

text \<open>A split of the range: the load of an item counts in full.\<close>

definition pruneR :: "real \<Rightarrow> LBDatas \<Rightarrow> LBDatas" where
  "pruneR splitPos workingSet = filter (\<lambda>data. r_end (d_range data) > splitPos) workingSet"

definition nextPosR :: "LBDatas \<Rightarrow> real" where
  "nextPosR workingSet = fold (\<lambda>data currentPos. min currentPos (r_end (d_range data))) workingSet 1"

fun loadInR :: "real \<Rightarrow> LBDatas \<Rightarrow> real \<Rightarrow> real" where
  "loadInR currentPos [] currentLoad = currentLoad"
| "loadInR currentPos (data # workingSet) currentLoad =
     (if r_start (d_range data) \<ge> currentPos then currentLoad
      else loadInR currentPos workingSet (fl (currentLoad + d_load data)))"

partial_function (option) splitLoopR :: "Range \<Rightarrow> real \<Rightarrow> real \<Rightarrow> LBDatas \<Rightarrow> real option" where
  "splitLoopR rng timeLeft splitPos workingSet =
     (if timeLeft > epsilon \<and> splitPos < r_end rng \<and> workingSet \<noteq> []
      then (let newSet = pruneR splitPos workingSet;
                currentPos = nextPosR newSet;
                currentLoad = loadInR currentPos newSet 0
            in if currentLoad \<ge> timeLeft
               then (let width = fl (currentPos - splitPos)
                     in splitLoopR rng 0 (fl (splitPos + fl (fl (width * timeLeft) / currentLoad))) newSet)
               else splitLoopR rng (fl (timeLeft - currentLoad)) currentPos newSet)
      else Some splitPos)"

definition clampR :: "NodeInfo \<Rightarrow> NodeInfo \<Rightarrow> NodeInfo \<Rightarrow> Range \<Rightarrow> real \<Rightarrow> real option" where
  "clampR node left right rng splitPos0 =
     (let end = r_end rng;
          boundary = n_boundaryf node;
          splitPos1 = (if n_usage left = 0 then r_start rng
                       else if n_usage right = 0 then end
                       else splitPos0)
      in map_option
           (\<lambda>ratio.
              (let splitPos2 = fl (fl (of_nat ratio) * boundary);
                   splitPos3 = (if fl (splitPos2 - r_start rng) < boundary then r_start rng
                                else splitPos2)
               in if fl (end - splitPos3) < boundary then end else splitPos3))
           (to_uint32 (fl (fl (splitPos1 / boundary) + 1 / 2))))"

text \<open>
  The leaf of \<^verbatim>\<open>_computeSplit\<close>: the compound gets the viewport and the range, and an
  observation for it is appended to the youngest record of the history
  (\<^verbatim>\<open>_history.back()\<close>, undefined on an empty history: no result).

  Modelled from the spec: the constructor of \<^verbatim>\<open>Data\<close> is in the header, which is not part
  of the sources. The spec gives the time \<open>-1\<close> of an observation that is not measured
  yet; \<open>load0\<close> is what the constructor leaves in the load, whatever that is.
\<close>

definition leafData :: "real \<Rightarrow> Compound \<Rightarrow> Viewport \<Rightarrow> Range \<Rightarrow> Data" where
  "leafData load0 compound vp rng =
     (let data = \<lparr>d_channel = c_channel compound, d_taskID = c_taskID compound, d_vp = vp,
                  d_range = rng, d_time = - 1, d_load = load0\<rparr>
      in if \<not> hasArea vp \<or> \<not> hasData rng then data\<lparr>d_time := 0\<rparr> else data)"

definition pushItem :: "Data \<Rightarrow> LBFrameData list \<Rightarrow> LBFrameData list option" where
  "pushItem data hist =
     (if hist = [] then None
      else Some (butlast hist @ [(fst (last hist), snd (last hist) @ [data])]))"

definition assignLeaf :: "LoadEqualizer \<Rightarrow> nat \<Rightarrow> Viewport \<Rightarrow> Range \<Rightarrow> LoadEqualizer option" where
  "assignLeaf s c vp rng =
     (let compound = compounds s c;
          s1 = s\<lparr>compounds := (compounds s)(c := compound\<lparr>c_vp := vp, c_range := rng\<rparr>)\<rparr>
      in map_option (\<lambda>hist. s1\<lparr>eq_history := hist\<rparr>)
           (pushItem (leafData (new_Data_load s) compound vp rng) (eq_history s1)))"

text \<open>
  \<^verbatim>\<open>_computeSplit( node, sortedData, vp, range )\<close>. A node whose split mode is
  \<^verbatim>\<open>MODE_2D\<close> is the \<^verbatim>\<open>default\<close> case of the switch: nothing is assigned below it.
\<close>

fun computeSplitNode ::
  "(Mode \<Rightarrow> LBDatas) \<Rightarrow> Node \<Rightarrow> Viewport \<Rightarrow> Range \<Rightarrow> LoadEqualizer \<Rightarrow> LoadEqualizer option" where
  "computeSplitNode sortedData (Leaf c i) vp rng s = assignLeaf s c vp rng"
| "computeSplitNode sortedData (Inner l r i) vp rng s =
     (case n_splitMode i of
        MODE_VERTICAL \<Rightarrow>
          (case splitLoopX vp (n_time (nodeInfo l)) (vp_x vp) (sortedData MODE_VERTICAL) of
             None \<Rightarrow> None
           | Some splitPos0 \<Rightarrow>
               (let end = getXEnd vp;
                    pvpW = fl (of_int (fst (c_inheritPVP (compounds s (eq_compound s)))))
                in case clampX i (nodeInfo l) (nodeInfo r) vp pvpW splitPos0 of
                     None \<Rightarrow> None
                   | Some splitPos \<Rightarrow>
                       (let childVP = vp\<lparr>vp_w := fl (splitPos - vp_x vp)\<rparr>
                        in case computeSplitNode sortedData l childVP rng s of
                             None \<Rightarrow> None
                           | Some s1 \<Rightarrow>
                               (let childVP1 = childVP\<lparr>vp_x := getXEnd childVP\<rparr>;
                                    childVP2 = childVP1\<lparr>vp_w := fl (end - vp_x childVP1)\<rparr>
                                in case growW (vp_x childVP2) (vp_w childVP2) end of
                                     None \<Rightarrow> None
                                   | Some w \<Rightarrow>
                                       computeSplitNode sortedData r (childVP2\<lparr>vp_w := w\<rparr>)
                                         rng s1))))
      | MODE_HORIZONTAL \<Rightarrow>
          (case splitLoopY vp (n_time (nodeInfo l)) (vp_y vp) (sortedData MODE_HORIZONTAL) of
             None \<Rightarrow> None
           | Some splitPos0 \<Rightarrow>
               (let end = getYEnd vp;
                    pvpH = fl (of_int (snd (c_inheritPVP (compounds s (eq_compound s)))))
                in case clampY i (nodeInfo l) (nodeInfo r) vp pvpH splitPos0 of
                     None \<Rightarrow> None
                   | Some splitPos \<Rightarrow>
                       (let childVP = vp\<lparr>vp_h := fl (splitPos - vp_y vp)\<rparr>
                        in case computeSplitNode sortedData l childVP rng s of
                             None \<Rightarrow> None
                           | Some s1 \<Rightarrow>
                               (let childVP1 = childVP\<lparr>vp_y := getYEnd childVP\<rparr>;
                                    childVP2 = childVP1\<lparr>vp_h := fl (end - vp_y childVP1)\<rparr>
                                in case growH (vp_y childVP2) (vp_h childVP2) end of
                                     None \<Rightarrow> None
                                   | Some h \<Rightarrow>
                                       computeSplitNode sortedData r (childVP2\<lparr>vp_h := h\<rparr>)
                                         rng s1))))
      | MODE_DB \<Rightarrow>
          (case splitLoopR rng (n_time (nodeInfo l)) (r_start rng) (sortedData MODE_DB) of
             None \<Rightarrow> None
           | Some splitPos0 \<Rightarrow>
               (case clampR i (nodeInfo l) (nodeInfo r) rng splitPos0 of
                  None \<Rightarrow> None
                | Some splitPos \<Rightarrow>
                    (let childRange = rng\<lparr>r_end := splitPos\<rparr>
                     in case computeSplitNode sortedData l vp childRange s of
                          None \<Rightarrow> None
                        | Some s1 \<Rightarrow>
                            (let childRange1 = childRange\<lparr>r_start := r_end childRange\<rparr>;
                                 childRange2 = childRange1\<lparr>r_end := r_end rng\<rparr>
                             in computeSplitNode sortedData r vp childRange2 s1))))
      | MODE_2D \<Rightarrow> Some s)"

text \<open>
  Modelled from the spec: the comparison functions \<^verbatim>\<open>_compareX\<close>, \<^verbatim>\<open>_compareY\<close> and
  \<^verbatim>\<open>_compareRange\<close> are in the header, which is not part of the sources. The spec gives
  one copy sorted by \<open>vp.x\<close>, one by \<open>vp.y\<close> and one by \<open>range.start\<close>. \<^verbatim>\<open>std::sort\<close>
  leaves the order of items with equal keys open; the model keeps their order.
\<close>

definition sortData :: "Mode \<Rightarrow> LBDatas \<Rightarrow> Mode \<Rightarrow> LBDatas" where
  "sortData m items k =
     (if m = MODE_DB
      then (if k = MODE_DB then sort_key (\<lambda>data. r_start (d_range data)) items else items)
      else (if k = MODE_VERTICAL then sort_key (\<lambda>data. vp_x (d_vp data)) items
            else if k = MODE_HORIZONTAL then sort_key (\<lambda>data. vp_y (d_vp data)) items
            else items))"

text \<open>
  \<^verbatim>\<open>_computeSplit()\<close>: it reads the front of the history (no result when there is none),
  adds up the total time and the resources, assigns the target times and the leftover,
  and computes the splits from the root with the full viewport and the whole range.
\<close>

definition computeSplit :: "LoadEqualizer \<Rightarrow> LoadEqualizer option" where
  "computeSplit s =
     (case eq_tree s of
        None \<Rightarrow> None
      | Some tree \<Rightarrow>
          (case eq_history s of
             [] \<Rightarrow> None
           | frameData # _ \<Rightarrow>
               (let items = removeEmpty (snd frameData);
                    sortedData = sortData (eq_mode s) items;
                    totalTime = foldl (\<lambda>total data. wrap64 (total + d_time data)) 0 items;
                    children = c_children (compounds s (eq_compound s));
                    nResources = foldl (\<lambda>n child.
                                   if c_running (compounds s child)
                                   then fl (n + c_usage (compounds s child)) else n) 0 children;
                    timeLeft = fl (fl (of_int totalTime) / nResources)
                in case assignTargetTimes s tree (fl (of_int totalTime)) timeLeft of
                     (tree1, leftover) \<Rightarrow>
                       (let tree2 = assignLeftoverTime tree1 leftover
                        in computeSplitNode sortedData tree2 Viewport_FULL Range_ALL
                             (s\<lparr>eq_tree := Some tree2\<rparr>)))))"

subsection \<open>The two notifications\<close>

definition notifyUpdatePre :: "LoadEqualizer \<Rightarrow> nat \<Rightarrow> nat \<Rightarrow> LoadEqualizer option" where
  "notifyUpdatePre s compound frameNumber =
     (let children = c_children (compounds s compound)
      in if eq_tree s = None \<and> children = [] then Some s
         else (case (if eq_tree s = None
                     then map_option
                            (\<lambda>tree. s\<lparr>eq_tree := Some tree,
                                       listening := listening s @
                                         map (\<lambda>c. c_channel (compounds s c)) (leafCompounds tree)\<rparr>)
                            (buildTree (new_Node s) (eq_mode s) children)
                     else Some s) of
                 None \<Rightarrow> None
               | Some s1 \<Rightarrow>
                   (let s2 = s1\<lparr>eq_history := checkHistory (eq_history s1)\<rparr>
                    in if eq_frozen s2 \<or> \<not> c_running (compounds s2 compound) then Some s2
                       else computeSplit (s2\<lparr>eq_history := eq_history s2 @ [(frameNumber, [])]\<rparr>))))"

definition notifyLoadData :: "LoadEqualizer \<Rightarrow> nat \<Rightarrow> nat \<Rightarrow> Statistic list \<Rightarrow> LoadEqualizer" where
  "notifyLoadData s channel frameNumber statistics =
     s\<lparr>eq_history := scanHistory channel frameNumber statistics (eq_history s)\<rparr>"

section \<open>Notions used to state the properties\<close>

text \<open>
  Every inner node carries the sum of the times of its two children (the \<^verbatim>\<open>float\<close> sum,
  as \<^verbatim>\<open>node->time == node->left->time + node->right->time\<close> evaluates it).
\<close>

fun timesAddUp :: "Node \<Rightarrow> bool" where
  "timesAddUp (Leaf c i) = True"
| "timesAddUp (Inner l r i) =
     (n_time i = fl (n_time (nodeInfo l) + n_time (nodeInfo r)) \<and> timesAddUp l \<and> timesAddUp r)"

fun leftNode :: "Node \<Rightarrow> Node" where
  "leftNode (Inner l r i) = l"
| "leftNode (Leaf c i) = Leaf c i"

fun rightNode :: "Node \<Rightarrow> Node" where
  "rightNode (Inner l r i) = r"
| "rightNode (Leaf c i) = Leaf c i"

text \<open>The viewport that a compound has in a state.\<close>

definition viewportOf :: "nat \<Rightarrow> LoadEqualizer \<Rightarrow> Viewport" where
  "viewportOf c s = c_vp (compounds s c)"

subsection \<open>The statistics that count for a task\<close>

text \<open>
  The statistics before the first \<^verbatim>\<open>CHANNEL_ASSEMBLE\<close> entry of the task; among them the
  clear, draw and readback entries of the task and its frame-transmit entries; and the
  time that the spec assigns, in unbounded integers: the maximum of \<open>1\<close>, of the end time
  minus the start time and of the transmit time. The end time is the largest end, and at
  least \<open>0\<close>.
\<close>

definition beforeAssemble :: "nat \<Rightarrow> Statistic list \<Rightarrow> Statistic list" where
  "beforeAssemble taskID stats =
     takeWhile (\<lambda>stat. \<not> (s_task stat = taskID \<and> s_type stat = CHANNEL_ASSEMBLE)) stats"

definition renderStats :: "nat \<Rightarrow> Statistic list \<Rightarrow> Statistic list" where
  "renderStats taskID stats =
     filter (\<lambda>stat. s_task stat = taskID \<and>
                     s_type stat \<in> {CHANNEL_CLEAR, CHANNEL_DRAW, CHANNEL_READBACK})
       (beforeAssemble taskID stats)"

definition transmitStats :: "nat \<Rightarrow> Statistic list \<Rightarrow> Statistic list" where
  "transmitStats taskID stats =
     filter (\<lambda>stat. s_task stat = taskID \<and> s_type stat = CHANNEL_FRAME_TRANSMIT)
       (beforeAssemble taskID stats)"

definition measuredTime :: "nat \<Rightarrow> Statistic list \<Rightarrow> int" where
  "measuredTime taskID stats =
     (let startTime = Min (set (map s_startTime (renderStats taskID stats)));
          endTime = Max (insert 0 (set (map s_endTime (renderStats taskID stats))));
          timeTransmit = (\<Sum>stat \<leftarrow> transmitStats taskID stats. s_endTime stat - s_startTime stat)
      in max (max 1 (endTime - startTime)) timeTransmit)"

subsection \<open>The front of the history\<close>

text \<open>The front record is complete and no other record of the history is.\<close>

definition frontIsUnique :: "LBFrameData list \<Rightarrow> bool" where
  "frontIsUnique hist \<longleftrightarrow>
     hist \<noteq> [] \<and> isComplete (snd (hd hist)) \<and> (\<forall>fd \<in> set (tl hist). \<not> isComplete (snd fd))"

subsection \<open>A small configuration\<close>

text \<open>
  Compound \<open>1\<close> is the root, \<open>rw\<close> pixels wide and eight high, with the children \<open>2\<close>
  and \<open>3\<close> on the channels \<open>11\<close> and \<open>12\<close>; every channel is \<open>cw\<close> pixels wide and eight
  high. \<open>exNode\<close> stands for the members of a new \<^verbatim>\<open>Node\<close>; no property below depends on
  its values.
\<close>

definition exRoot :: "int \<Rightarrow> Compound" where
  "exRoot rw = \<lparr>c_children = [2, 3], c_running = True, c_usage = 1, c_taskID = 0,
             c_channel = 10, c_inheritPVP = (rw, 8), c_vp = Viewport_FULL, c_range = Range_ALL\<rparr>"

definition exChild :: "nat \<Rightarrow> nat \<Rightarrow> Compound" where
  "exChild task chan = \<lparr>c_children = [], c_running = True, c_usage = 1, c_taskID = task,
             c_channel = chan, c_inheritPVP = (4, 8), c_vp = Viewport_FULL, c_range = Range_ALL\<rparr>"

definition exCompounds :: "int \<Rightarrow> nat \<Rightarrow> Compound" where
  "exCompounds rw c = (if c = 2 then exChild 1 11 else if c = 3 then exChild 2 12 else exRoot rw)"

definition exNode :: NodeInfo where
  "exNode = \<lparr>n_splitMode = MODE_VERTICAL, n_time = 0, n_usage = 0, n_maxSize = (0, 0),
            n_boundary2i = (0, 0), n_boundaryf = 0\<rparr>"

definition exEqualizer :: "Mode \<Rightarrow> int \<Rightarrow> int \<Rightarrow> LoadEqualizer" where
  "exEqualizer m rw cw = \<lparr>eq_mode = m, eq_damping = 0, eq_tree = None, eq_boundary2i = (1, 1),
             eq_boundaryf = 1 / 4, eq_history = [], eq_frozen = False, eq_compound = 1,
             compounds = exCompounds rw, chanPVP = (\<lambda>chan. (cw, 8)), listening = [],
             new_Node = exNode, new_Data_load = 0\<rparr>"

text \<open>The tree that \<open>buildTree node0 m\<close> makes of the children \<open>2\<close> and \<open>3\<close>.\<close>

definition exTree :: "NodeInfo \<Rightarrow> Mode \<Rightarrow> Node" where
  "exTree node0 m = Inner (Leaf 2 (node0\<lparr>n_splitMode := m\<rparr>)) (Leaf 3 (node0\<lparr>n_splitMode := m\<rparr>))
                    (node0\<lparr>n_splitMode := m, n_time := 0\<rparr>)"

text \<open>
  An observation of channel \<open>11\<close> for task \<open>1\<close> over the full viewport, not measured yet;
  a statistic of task \<open>1\<close>; and the configuration in which the root has the child \<open>2\<close>
  only, with a given history.
\<close>

definition exData :: Data where
  "exData = \<lparr>d_channel = 11, d_taskID = 1, d_vp = Viewport_FULL, d_range = Range_ALL,
            d_time = - 1, d_load = 0\<rparr>"

definition exStat :: "StatType \<Rightarrow> int \<Rightarrow> int \<Rightarrow> Statistic" where
  "exStat ty t0 t1 = \<lparr>s_task = 1, s_type = ty, s_startTime = t0, s_endTime = t1\<rparr>"

definition exLB :: "LBFrameData list \<Rightarrow> LoadEqualizer" where
  "exLB hist = (exEqualizer MODE_VERTICAL 8 4)\<lparr>eq_history := hist,
      compounds := (exCompounds 8)(1 := (exRoot 8)\<lparr>c_children := [2]\<rparr>)\<rparr>"

text \<open>
  The first scenario of the spec: the last frame was measured with load \<open>1\<close> over the
  full viewport.
\<close>

definition exObs :: Data where
  "exObs = \<lparr>d_channel = 11, d_taskID = 1, d_vp = Viewport_FULL, d_range = Range_ALL,
           d_time = 1, d_load = 1\<rparr>"

definition exS1 :: "int \<Rightarrow> int \<Rightarrow> LoadEqualizer" where
  "exS1 rw cw = (exEqualizer MODE_VERTICAL rw cw)\<lparr>eq_history := [(1, [exObs])]\<rparr>"

section \<open>Properties\<close>

subsection \<open>Rounding\<close>

lemma roundEven_of_int: "roundEven (of_int k) = k"
  by (simp add: roundEven_def)

lemma ulp32_binade:
  assumes "2 powr of_int e \<le> \<bar>v\<bar>" and "\<bar>v\<bar> < 2 powr of_int (e + 1)" and "- 126 \<le> e"
  shows "ulp32 v = 2 powr of_int (e - 23)"
proof -
  have pos: "\<bar>v\<bar> > 0"
    using assms(1) by (smt (verit) powr_gt_zero)
  have "\<lfloor>log 2 \<bar>v\<bar>\<rfloor> = e"
  proof (rule floor_unique)
    show "of_int e \<le> log 2 \<bar>v\<bar>"
      using assms(1) pos by (simp add: le_log_iff)
    show "log 2 \<bar>v\<bar> < of_int e + 1"
      using assms(2) pos by (simp add: log_less_iff)
  qed
  then show ?thesis
    using assms(3) by (simp add: ulp32_def)
qed

lemma fl_binade:
  assumes "2 powr of_int e \<le> \<bar>v\<bar>" and "\<bar>v\<bar> < 2 powr of_int (e + 1)" and "- 126 \<le> e"
  shows "fl v = of_int (roundEven (v / 2 powr of_int (e - 23))) * 2 powr of_int (e - 23)"
proof -
  have "v \<noteq> 0"
    using assms(1) by (smt (verit) powr_gt_zero)
  then show ?thesis
    by (simp add: fl_def ulp32_binade [OF assms])
qed

lemma fl_exact:
  assumes "\<bar>k\<bar> < 2 ^ 24" and "- 149 \<le> m"
  shows "fl (of_int k * 2 powr of_int m) = of_int k * 2 powr of_int m"
proof (cases "k = 0")
  case True
  then show ?thesis by (simp add: fl_def)
next
  case False
  let ?v = "of_int k * 2 powr of_int m :: real"
  have v0: "?v \<noteq> 0"
    using False by simp
  have absv: "\<bar>?v\<bar> = of_int \<bar>k\<bar> * 2 powr of_int m"
    by (simp add: abs_mult)
  have "of_int \<bar>k\<bar> < (2 :: real) ^ 24"
    using assms(1) by (metis of_int_less_iff of_int_numeral of_int_power)
  then have "\<bar>?v\<bar> < 2 ^ 24 * 2 powr of_int m"
    unfolding absv by (simp add: mult_strict_right_mono)
  also have "(2 :: real) ^ 24 * 2 powr of_int m = 2 powr of_int (m + 24)"
    by (simp add: powr_add powr_realpow [symmetric] mult.commute)
  finally have "log 2 \<bar>?v\<bar> < of_int (m + 24)"
    using v0 by (simp add: log_less_iff)
  then have "\<lfloor>log 2 \<bar>?v\<bar>\<rfloor> < m + 24"
    by (simp add: floor_less_iff)
  then have le: "max \<lfloor>log 2 \<bar>?v\<bar>\<rfloor> (- 126) \<le> m + 23"
    using assms(2) by simp
  define j where "j = m + 23 - max \<lfloor>log 2 \<bar>?v\<bar>\<rfloor> (- 126)"
  have j0: "j \<ge> 0"
    using le by (simp add: j_def)
  have u: "ulp32 ?v = 2 powr of_int (m - j)"
    by (simp add: ulp32_def j_def)
  have "?v / ulp32 ?v = of_int k * 2 powr of_int j"
    unfolding u by (simp add: powr_diff)
  also have "2 powr of_int j = (of_int (2 ^ nat j) :: real)"
    using j0 by (simp add: powr_realpow [symmetric])
  finally have q: "?v / ulp32 ?v = of_int (k * 2 ^ nat j)"
    by simp
  have "fl ?v = of_int (k * 2 ^ nat j) * ulp32 ?v"
    using v0 by (simp only: fl_def q roundEven_of_int if_False)
  also have "\<dots> = (?v / ulp32 ?v) * ulp32 ?v"
    by (simp only: q)
  also have "\<dots> = ?v"
    by (simp add: u)
  finally show ?thesis .
qed

lemma fl_int: "\<bar>k\<bar> < 2 ^ 24 \<Longrightarrow> fl (of_int k) = of_int k"
  using fl_exact [of k 0] by simp

lemma fl_dyadic: "\<bar>k\<bar> < 2 ^ 24 \<Longrightarrow> n \<le> 149 \<Longrightarrow> fl (of_int k / 2 ^ n) = of_int k / 2 ^ n"
  using fl_exact [of k "- int n"] by (simp add: powr_minus powr_realpow divide_inverse)

lemma fl_numeral [simp]: "fl 0 = 0" "fl 1 = 1" "fl 2 = 2" "fl (1 / 2) = 1 / 2"
  using fl_int [of 0] fl_int [of 1] fl_int [of 2] fl_dyadic [of 1 1] by simp_all

lemma fl_numeral_small [simp]: "(numeral n :: int) < 2 ^ 24 \<Longrightarrow> fl (numeral n) = numeral n"
  using fl_int [of "numeral n"] by simp

lemma wrap64_id: "- (2 ^ 63) \<le> v \<Longrightarrow> v \<le> INT64_MAX \<Longrightarrow> wrap64 v = v"
  by (simp add: wrap64_def INT64_MAX_def)

subsection \<open>notifyLoadData\<close>

lemmas ex_simps = exData_def exStat_def exLB_def exEqualizer_def Viewport_FULL_def
  Range_ALL_def getArea_def INT64_MAX_def fakeSet_def

text \<open>
  The history of the small configuration after its first frame: the synthetic record
  and the record of the frame, which holds the observation of the child.
\<close>

lemma exLB_first_frame:
  "map_option eq_history (notifyUpdatePre (exLB []) 1 f) = Some [fakeSet, (f, [exData])]"
proof -
  have tree: "buildTree exNode MODE_VERTICAL [2] = Some (Leaf 2 (exNode\<lparr>n_splitMode := MODE_VERTICAL\<rparr>))"
    by simp
  have ch: "checkHistory [] = [fakeSet]"
    by (simp add: checkHistory_def)
  have items: "removeEmpty (snd fakeSet) = snd fakeSet"
    by (simp add: removeEmpty_def fakeSet_def hasArea_def hasData_def Viewport_FULL_def Range_ALL_def)
  show ?thesis
    by (simp add: notifyUpdatePre_def exLB_def exEqualizer_def exRoot_def exCompounds_def
        exChild_def tree ch computeSplit_def items Let_def assignLeaf_def pushItem_def leafData_def
        exData_def hasArea_def hasData_def Viewport_FULL_def Range_ALL_def split: prod.splits)
qed

lemma transmit_sum:
  assumes "\<forall>stat \<in> set xs. s_startTime stat \<le> s_endTime stat"
    and "0 \<le> t0"
    and "t0 + (\<Sum>stat \<leftarrow> xs. s_endTime stat - s_startTime stat) \<le> INT64_MAX"
  shows "foldl (\<lambda>t stat. wrap64 (t + wrap64 (s_endTime stat - s_startTime stat))) t0 xs =
           t0 + (\<Sum>stat \<leftarrow> xs. s_endTime stat - s_startTime stat)"
  using assms
proof (induction xs arbitrary: t0)
  case Nil
  show ?case by simp
next
  case (Cons x xs)
  let ?d = "s_endTime x - s_startTime x"
  have d0: "0 \<le> ?d"
    using Cons.prems(1) by simp
  have rest: "0 \<le> (\<Sum>stat \<leftarrow> xs. s_endTime stat - s_startTime stat)"
    using Cons.prems(1) by (intro sum_list_nonneg) auto
  have top: "t0 + ?d + (\<Sum>stat \<leftarrow> xs. s_endTime stat - s_startTime stat) \<le> INT64_MAX"
    using Cons.prems(3) by simp
  have w1: "wrap64 ?d = ?d"
    using d0 rest top Cons.prems(2) by (intro wrap64_id) simp_all
  have w2: "wrap64 (t0 + ?d) = t0 + ?d"
    using d0 rest top Cons.prems(2) by (intro wrap64_id) simp_all
  have "foldl (\<lambda>t stat. wrap64 (t + wrap64 (s_endTime stat - s_startTime stat))) (t0 + ?d) xs =
      t0 + ?d + (\<Sum>stat \<leftarrow> xs. s_endTime stat - s_startTime stat)"
    using Cons.prems(1) d0 Cons.prems(2) top by (intro Cons.IH) simp_all
  then show ?case
    by (simp add: w1 w2)
qed

lemma gatherLoad_fold:
  "gatherLoad taskID stats (s0, e0, t0) =
     (fold min (map s_startTime (renderStats taskID stats)) s0,
      fold max (map s_endTime (renderStats taskID stats)) e0,
      foldl (\<lambda>t stat. wrap64 (t + wrap64 (s_endTime stat - s_startTime stat))) t0
        (transmitStats taskID stats))"
proof (induction stats arbitrary: s0 e0 t0)
  case Nil
  show ?case by (simp add: renderStats_def transmitStats_def beforeAssemble_def)
next
  case (Cons stat stats)
  show ?case
  proof (cases "s_task stat = taskID")
    case False
    then show ?thesis
      using Cons.IH by (simp add: renderStats_def transmitStats_def beforeAssemble_def)
  next
    case True
    then show ?thesis
      using Cons.IH
      by (cases "s_type stat")
         (simp_all add: renderStats_def transmitStats_def beforeAssemble_def min.commute max.commute)
  qed
qed

lemma fold_min_Min: "fold min xs (a::int) = Min (insert a (set xs))"
  by (metis Min.set_eq_fold list.simps(15))

lemma fold_max_Max: "fold max xs (a::int) = Max (insert a (set xs))"
  by (metis Max.set_eq_fold list.simps(15))

lemma gatherLoad_none:
  assumes "renderStats taskID stats = []"
  shows "fst (gatherLoad taskID stats (INT64_MAX, 0, 0)) = INT64_MAX"
  using assms by (simp add: gatherLoad_fold)

lemma gatherLoad_some:
  assumes "renderStats taskID stats \<noteq> []"
    and "\<forall>stat \<in> set (renderStats taskID stats).
           0 \<le> s_startTime stat \<and> s_startTime stat < INT64_MAX \<and> s_endTime stat \<le> INT64_MAX"
    and "\<forall>stat \<in> set (transmitStats taskID stats). s_startTime stat \<le> s_endTime stat"
    and "(\<Sum>stat \<leftarrow> transmitStats taskID stats. s_endTime stat - s_startTime stat) \<le> INT64_MAX"
  shows "gatherLoad taskID stats (INT64_MAX, 0, 0) =
           (Min (set (map s_startTime (renderStats taskID stats))),
            Max (insert 0 (set (map s_endTime (renderStats taskID stats)))),
            (\<Sum>stat \<leftarrow> transmitStats taskID stats. s_endTime stat - s_startTime stat))"
    and "Min (set (map s_startTime (renderStats taskID stats))) < INT64_MAX"
    and "wrap64 (Max (insert 0 (set (map s_endTime (renderStats taskID stats)))) -
                 Min (set (map s_startTime (renderStats taskID stats)))) =
           Max (insert 0 (set (map s_endTime (renderStats taskID stats)))) -
           Min (set (map s_startTime (renderStats taskID stats)))"
proof -
  let ?starts = "set (map s_startTime (renderStats taskID stats))"
  let ?ends = "insert 0 (set (map s_endTime (renderStats taskID stats)))"
  have fin: "finite ?starts" and ne: "?starts \<noteq> {}"
    using assms(1) by simp_all
  have "Min ?starts \<in> ?starts"
    using fin ne by (rule Min_in)
  then obtain stat where "stat \<in> set (renderStats taskID stats)" "Min ?starts = s_startTime stat"
    by auto
  then have below: "Min ?starts < INT64_MAX" and above: "0 \<le> Min ?starts"
    using assms(2) by simp_all
  show "Min ?starts < INT64_MAX"
    by (rule below)
  have "Max ?ends \<in> ?ends"
    by (rule Max_in) simp_all
  then have "Max ?ends = 0 \<or> (\<exists>stat \<in> set (renderStats taskID stats). Max ?ends = s_endTime stat)"
    by auto
  then have hi: "Max ?ends \<le> INT64_MAX"
    using assms(2) by (auto simp add: INT64_MAX_def)
  have lo: "0 \<le> Max ?ends"
    by (rule Max_ge) simp_all
  have "Min (insert INT64_MAX ?starts) = min INT64_MAX (Min ?starts)"
    using fin ne by (rule Min_insert)
  then have eq: "Min (insert INT64_MAX ?starts) = Min ?starts"
    using below by simp
  have tr: "foldl (\<lambda>t stat. wrap64 (t + wrap64 (s_endTime stat - s_startTime stat))) 0
        (transmitStats taskID stats) =
      0 + (\<Sum>stat \<leftarrow> transmitStats taskID stats. s_endTime stat - s_startTime stat)"
    using assms(3) _ _ by (rule transmit_sum) (simp_all add: assms(4))
  show "gatherLoad taskID stats (INT64_MAX, 0, 0) =
           (Min ?starts, Max ?ends,
            (\<Sum>stat \<leftarrow> transmitStats taskID stats. s_endTime stat - s_startTime stat))"
    by (simp only: gatherLoad_fold fold_min_Min fold_max_Max eq tr) simp
  have "wrap64 (E - S) = E - S" if "0 \<le> S" "S < INT64_MAX" "0 \<le> E" "E \<le> INT64_MAX" for E S
    using that by (intro wrap64_id) (simp_all add: INT64_MAX_def)
  from this [OF above below lo hi]
  show "wrap64 (Max ?ends - Min ?starts) = Max ?ends - Min ?starts" .
qed

lemma setLoad_measured:
  assumes "getArea (d_vp data) > 0"
    and "\<forall>stat \<in> set (renderStats (d_taskID data) stats).
           0 \<le> s_startTime stat \<and> s_startTime stat < INT64_MAX \<and> s_endTime stat \<le> INT64_MAX"
    and "\<forall>stat \<in> set (transmitStats (d_taskID data) stats). s_startTime stat \<le> s_endTime stat"
    and "(\<Sum>stat \<leftarrow> transmitStats (d_taskID data) stats. s_endTime stat - s_startTime stat)
           \<le> INT64_MAX"
  shows "setLoad stats data =
           (if renderStats (d_taskID data) stats = [] then data
            else data\<lparr>d_time := measuredTime (d_taskID data) stats,
                       d_load := fl (fl (of_int (measuredTime (d_taskID data) stats))
                                       / getArea (d_vp data))\<rparr>)"
proof (cases "renderStats (d_taskID data) stats = []")
  case True
  obtain a b c where g: "gatherLoad (d_taskID data) stats (INT64_MAX, 0, 0) = (a, b, c)"
    by (cases "gatherLoad (d_taskID data) stats (INT64_MAX, 0, 0)")
  with gatherLoad_none [OF True] have "a = INT64_MAX"
    by simp
  then show ?thesis
    using True g by (simp add: setLoad_def)
next
  case False
  let ?S = "Min (set (map s_startTime (renderStats (d_taskID data) stats)))"
  let ?E = "Max (insert 0 (set (map s_endTime (renderStats (d_taskID data) stats))))"
  let ?T = "\<Sum>stat \<leftarrow> transmitStats (d_taskID data) stats. s_endTime stat - s_startTime stat"
  note g = gatherLoad_some [OF False assms(2,3,4)]
  have area: "\<not> getArea (d_vp data) \<le> 0"
    using assms(1) by simp
  have start: "?S \<noteq> INT64_MAX"
    using g(2) by simp
  have "setLoad stats data =
      data\<lparr>d_time := max (max (wrap64 (?E - ?S)) 1) ?T,
            d_load := fl (fl (of_int (max (max (wrap64 (?E - ?S)) 1) ?T)) / getArea (d_vp data))\<rparr>"
    unfolding setLoad_def g(1) prod.case Let_def using area start by (simp only: if_False)
  also have "max (max (wrap64 (?E - ?S)) 1) ?T = measuredTime (d_taskID data) stats"
    unfolding g(3) measuredTime_def Let_def by (simp only: max.commute)
  finally show ?thesis
    using False by (simp only: if_False)
qed

lemma setLoad_keeps: "d_taskID (setLoad stats data) = d_taskID data"
  "d_vp (setLoad stats data) = d_vp data" "d_channel (setLoad stats data) = d_channel data"
  by (simp_all add: setLoad_def Let_def split: prod.splits)

lemma setLoad_cases:
  "setLoad stats data = data \<or> (\<exists>t l. setLoad stats data = data\<lparr>d_time := t, d_load := l\<rparr>)"
proof -
  obtain a b c where g: "gatherLoad (d_taskID data) stats (INT64_MAX, 0, 0) = (a, b, c)"
    by (cases "gatherLoad (d_taskID data) stats (INT64_MAX, 0, 0)")
  show ?thesis
  proof (cases "getArea (d_vp data) \<le> 0 \<or> a = INT64_MAX")
    case True
    with g have "setLoad stats data = data"
      by (auto simp add: setLoad_def)
    then show ?thesis by (rule disjI1)
  next
    case False
    with g have "setLoad stats data =
        data\<lparr>d_time := max (max (wrap64 (b - a)) 1) c,
              d_load := fl (fl (of_int (max (max (wrap64 (b - a)) 1) c)) / getArea (d_vp data))\<rparr>"
      by (simp add: setLoad_def Let_def)
    then show ?thesis by (intro disjI2 exI)
  qed
qed

lemma scanItems_None:
  "(scanItems chan stats items = None) = (\<forall>d \<in> set items. d_channel d \<noteq> chan)"
  by (induction items) simp_all

lemma scanItems_found:
  assumes "\<forall>d \<in> set items1. d_channel d \<noteq> chan" and "d_channel data = chan"
  shows "scanItems chan stats (items1 @ data # items2) = Some (items1 @ setLoad stats data # items2)"
  using assms by (induction items1) simp_all

lemma scanHistory_found:
  assumes "\<forall>fd \<in> set pre. fst fd = frameNumber \<longrightarrow> scanItems chan stats (snd fd) = None"
    and "scanItems chan stats items = Some items'"
  shows "scanHistory chan frameNumber stats (pre @ (frameNumber, items) # post) =
           pre @ (frameNumber, items') # post"
  using assms by (induction pre) auto

lemma notifyLoadData_found:
  assumes "eq_history s = pre @ (frameNumber, items1 @ data # items2) # post"
    and "\<forall>fd \<in> set pre. fst fd = frameNumber \<longrightarrow> (\<forall>d \<in> set (snd fd). d_channel d \<noteq> channel)"
    and "\<forall>d \<in> set items1. d_channel d \<noteq> channel"
    and "d_channel data = channel"
  shows "notifyLoadData s channel frameNumber stats =
           s\<lparr>eq_history := pre @ (frameNumber, items1 @ setLoad stats data # items2) # post\<rparr>"
proof -
  have "scanItems channel stats (items1 @ data # items2) = Some (items1 @ setLoad stats data # items2)"
    using assms(3,4) by (rule scanItems_found)
  moreover have "\<forall>fd \<in> set pre. fst fd = frameNumber \<longrightarrow> scanItems channel stats (snd fd) = None"
    using assms(2) by (simp add: scanItems_None)
  ultimately have "scanHistory channel frameNumber stats (eq_history s) =
      pre @ (frameNumber, items1 @ setLoad stats data # items2) # post"
    unfolding assms(1) by (rule scanHistory_found [rotated])
  then show ?thesis
    by (simp only: notifyLoadData_def)
qed

text \<open>
  Claim C3, as the code has it. The observation is the first one of the channel in the
  first record of the frame that holds one for the channel; the area of its viewport is
  between \<open>2\<^sup>-\<^sup>6\<^sup>4\<close> and \<open>2\<^sup>6\<^sup>4\<close>. The clear, draw and readback entries of its task before the
  first assemble entry of the task start at \<open>0\<close> or later and before the largest
  \<^verbatim>\<open>int64_t\<close> and end at the largest \<^verbatim>\<open>int64_t\<close> at the latest; the frame-transmit entries
  among them do not end before they start and their durations add up to an \<^verbatim>\<open>int64_t\<close>.
  If there is a clear, draw or readback entry, the time becomes
  \<open>max(1, endTime - startTime, timeTransmit)\<close> and the load the \<^verbatim>\<open>float\<close> quotient of the
  time, converted to \<^verbatim>\<open>float\<close>, and the area; if there is none, the observation is left
  as it is, also when frame-transmit entries are there. Nothing else in the state
  changes.
\<close>

theorem notifyLoadData_sets_time:
  assumes "eq_history s = pre @ (frameNumber, items1 @ data # items2) # post"
    and "\<forall>fd \<in> set pre. fst fd = frameNumber \<longrightarrow> (\<forall>d \<in> set (snd fd). d_channel d \<noteq> channel)"
    and "\<forall>d \<in> set items1. d_channel d \<noteq> channel"
    and "d_channel data = channel"
    and "1 / 2 ^ 64 \<le> getArea (d_vp data)" and "getArea (d_vp data) \<le> 2 ^ 64"
    and "\<forall>stat \<in> set (renderStats (d_taskID data) stats).
           0 \<le> s_startTime stat \<and> s_startTime stat < INT64_MAX \<and> s_endTime stat \<le> INT64_MAX"
    and "\<forall>stat \<in> set (transmitStats (d_taskID data) stats). s_startTime stat \<le> s_endTime stat"
    and "(\<Sum>stat \<leftarrow> transmitStats (d_taskID data) stats. s_endTime stat - s_startTime stat)
           \<le> INT64_MAX"
  shows "notifyLoadData s channel frameNumber stats =
           s\<lparr>eq_history := pre @
               (frameNumber, items1 @
                  (if renderStats (d_taskID data) stats = [] then data
                   else data\<lparr>d_time := measuredTime (d_taskID data) stats,
                              d_load := fl (fl (of_int (measuredTime (d_taskID data) stats))
                                              / getArea (d_vp data))\<rparr>)
                  # items2) # post\<rparr>"
proof -
  have "(0::real) < 1 / 2 ^ 64"
    by simp
  then have area: "getArea (d_vp data) > 0"
    using assms(5) by (rule less_le_trans)
  show ?thesis
    by (simp only: notifyLoadData_found [OF assms(1-4)] setLoad_measured [OF area assms(7-9)])
qed

theorem notifyLoadData_sets_time_witness:
  "eq_history (exLB [fakeSet, (1, [exData])]) = [fakeSet] @ (1, [] @ exData # []) # [] \<and>
   d_channel exData = 11 \<and> getArea (d_vp exData) = 1 \<and>
   renderStats (d_taskID exData) [exStat CHANNEL_DRAW 2 12, exStat CHANNEL_FRAME_TRANSMIT 0 3]
     = [exStat CHANNEL_DRAW 2 12] \<and>
   transmitStats (d_taskID exData) [exStat CHANNEL_DRAW 2 12, exStat CHANNEL_FRAME_TRANSMIT 0 3]
     = [exStat CHANNEL_FRAME_TRANSMIT 0 3] \<and>
   notifyLoadData (exLB [fakeSet, (1, [exData])]) 11 1
       [exStat CHANNEL_DRAW 2 12, exStat CHANNEL_FRAME_TRANSMIT 0 3] =
     exLB [fakeSet, (1, [exData\<lparr>d_time := 10, d_load := 10\<rparr>])]"
  using notifyLoadData_sets_time [of "exLB [fakeSet, (1, [exData])]" "[fakeSet]" 1 "[]" exData "[]"
      "[]" 11 "[exStat CHANNEL_DRAW 2 12, exStat CHANNEL_FRAME_TRANSMIT 0 3]"]
  by (simp add: ex_simps renderStats_def transmitStats_def beforeAssemble_def measuredTime_def)

text \<open>
  The claim as written counts a frame-transmit entry as relevant. With only such an
  entry for the task, the observation keeps its time \<open>-1\<close>. The history is the one
  that \<open>notifyUpdatePre\<close> leaves after the first frame, with the frame number \<open>1\<close>
  (\<open>exLB_first_frame\<close>).
\<close>

theorem notifyLoadData_transmit_only_counterexample:
  "s_task (exStat CHANNEL_FRAME_TRANSMIT 0 5) = d_taskID exData \<and>
   d_time exData = - 1 \<and> getArea (d_vp exData) = 1 \<and>
   notifyLoadData (exLB [fakeSet, (1, [exData])]) 11 1 [exStat CHANNEL_FRAME_TRANSMIT 0 5] =
     exLB [fakeSet, (1, [exData])]"
  by (simp add: ex_simps notifyLoadData_def setLoad_def)

text \<open>
  Claim C4, as the code has it. A later call for the same channel and frame is not
  ignored. Let the observation be the first one of the channel in the first record of
  the frame that holds one for the channel, with a viewport of an area between \<open>2\<^sup>-\<^sup>6\<^sup>4\<close>
  and \<open>2\<^sup>6\<^sup>4\<close>, and let the statistics of the later call hold a clear, draw or readback
  entry of its task before the first assemble entry of the task, these entries starting
  at \<open>0\<close> or later and before the largest \<^verbatim>\<open>int64_t\<close> and ending at the largest \<^verbatim>\<open>int64_t\<close>
  at the latest, the frame-transmit entries not ending before they start and with
  durations that add up to an \<^verbatim>\<open>int64_t\<close>. Then, whatever the statistics of the earlier
  call were, after the later call the observation has the time
  \<open>max(1, endTime - startTime, timeTransmit)\<close> of the later statistics and the load that
  belongs to it: what the earlier call wrote is overwritten.
\<close>

theorem notifyLoadData_last_call_wins:
  assumes "eq_history s = pre @ (frameNumber, items1 @ data # items2) # post"
    and "\<forall>fd \<in> set pre. fst fd = frameNumber \<longrightarrow> (\<forall>d \<in> set (snd fd). d_channel d \<noteq> channel)"
    and "\<forall>d \<in> set items1. d_channel d \<noteq> channel"
    and "d_channel data = channel"
    and "1 / 2 ^ 64 \<le> getArea (d_vp data)" and "getArea (d_vp data) \<le> 2 ^ 64"
    and "renderStats (d_taskID data) stats2 \<noteq> []"
    and "\<forall>stat \<in> set (renderStats (d_taskID data) stats2).
           0 \<le> s_startTime stat \<and> s_startTime stat < INT64_MAX \<and> s_endTime stat \<le> INT64_MAX"
    and "\<forall>stat \<in> set (transmitStats (d_taskID data) stats2). s_startTime stat \<le> s_endTime stat"
    and "(\<Sum>stat \<leftarrow> transmitStats (d_taskID data) stats2. s_endTime stat - s_startTime stat)
           \<le> INT64_MAX"
  shows "notifyLoadData (notifyLoadData s channel frameNumber stats1) channel frameNumber stats2 =
           s\<lparr>eq_history := pre @
               (frameNumber, items1 @
                  data\<lparr>d_time := measuredTime (d_taskID data) stats2,
                        d_load := fl (fl (of_int (measuredTime (d_taskID data) stats2))
                                        / getArea (d_vp data))\<rparr>
                  # items2) # post\<rparr>"
proof -
  let ?data1 = "setLoad stats1 data"
  let ?s1 = "s\<lparr>eq_history := pre @ (frameNumber, items1 @ ?data1 # items2) # post\<rparr>"
  have "(0::real) < 1 / 2 ^ 64"
    by simp
  then have "getArea (d_vp data) > 0"
    using assms(5) by (rule less_le_trans)
  then have area: "getArea (d_vp ?data1) > 0"
    by (simp only: setLoad_keeps)
  have one: "notifyLoadData s channel frameNumber stats1 = ?s1"
    using assms(1-4) by (rule notifyLoadData_found)
  have hist: "eq_history ?s1 = pre @ (frameNumber, items1 @ ?data1 # items2) # post"
    by simp
  have chan: "d_channel ?data1 = channel"
    using assms(4) by (simp only: setLoad_keeps)
  have two: "notifyLoadData ?s1 channel frameNumber stats2 =
      ?s1\<lparr>eq_history := pre @ (frameNumber, items1 @ setLoad stats2 ?data1 # items2) # post\<rparr>"
    using hist assms(2,3) chan by (rule notifyLoadData_found)
  have "setLoad stats2 ?data1 =
      ?data1\<lparr>d_time := measuredTime (d_taskID data) stats2,
              d_load := fl (fl (of_int (measuredTime (d_taskID data) stats2)) / getArea (d_vp data))\<rparr>"
    using setLoad_measured [of ?data1 stats2] area assms(7-10)
    by (simp only: setLoad_keeps if_False)
  also have "\<dots> = data\<lparr>d_time := measuredTime (d_taskID data) stats2,
              d_load := fl (fl (of_int (measuredTime (d_taskID data) stats2)) / getArea (d_vp data))\<rparr>"
    using setLoad_cases [of stats1 data] by auto
  finally have three: "setLoad stats2 ?data1 =
      data\<lparr>d_time := measuredTime (d_taskID data) stats2,
            d_load := fl (fl (of_int (measuredTime (d_taskID data) stats2)) / getArea (d_vp data))\<rparr>" .
  show ?thesis
    unfolding one two three by simp
qed

theorem notifyLoadData_last_call_wins_witness:
  "eq_history (exLB [fakeSet, (1, [exData])]) = [fakeSet] @ (1, [] @ exData # []) # [] \<and>
   d_channel exData = 11 \<and> getArea (d_vp exData) = 1 \<and>
   renderStats (d_taskID exData) [exStat CHANNEL_DRAW 0 30] = [exStat CHANNEL_DRAW 0 30] \<and>
   transmitStats (d_taskID exData) [exStat CHANNEL_DRAW 0 30] = [] \<and>
   notifyLoadData (notifyLoadData (exLB [fakeSet, (1, [exData])]) 11 1 [exStat CHANNEL_DRAW 2 12]) 11 1
       [exStat CHANNEL_DRAW 0 30] =
     exLB [fakeSet, (1, [exData\<lparr>d_time := 30, d_load := 30\<rparr>])]"
  using notifyLoadData_last_call_wins [of "exLB [fakeSet, (1, [exData])]" "[fakeSet]" 1 "[]" exData
      "[]" "[]" 11 "[exStat CHANNEL_DRAW 0 30]" "[exStat CHANNEL_DRAW 2 12]"]
  by (simp add: ex_simps renderStats_def transmitStats_def beforeAssemble_def measuredTime_def)

text \<open>
  The claim as written fails. On the history that \<open>notifyUpdatePre\<close> leaves after the
  first frame, with the frame number \<open>1\<close> (\<open>exLB_first_frame\<close>), the first call sets the
  time to \<open>10\<close> and the load to \<open>10\<close>, the second call sets them to \<open>30\<close>.
\<close>

theorem notifyLoadData_overwrites_counterexample:
  "notifyLoadData (exLB [fakeSet, (1, [exData])]) 11 1 [exStat CHANNEL_DRAW 2 12] =
     exLB [fakeSet, (1, [exData\<lparr>d_time := 10, d_load := 10\<rparr>])] \<and>
   notifyLoadData (notifyLoadData (exLB [fakeSet, (1, [exData])]) 11 1 [exStat CHANNEL_DRAW 2 12]) 11 1
       [exStat CHANNEL_DRAW 0 30] =
     exLB [fakeSet, (1, [exData\<lparr>d_time := 30, d_load := 30\<rparr>])]"
  by (simp add: ex_simps notifyLoadData_def setLoad_def wrap64_def)

lemma scanItems_Some:
  "scanItems chan stats items = Some items' \<Longrightarrow>
     \<exists>items1 data items2. items = items1 @ data # items2 \<and>
        (\<forall>d \<in> set items1. d_channel d \<noteq> chan) \<and> d_channel data = chan \<and>
        items' = items1 @ setLoad stats data # items2"
proof (induction items arbitrary: items')
  case Nil
  then show ?case by simp
next
  case (Cons d items)
  show ?case
  proof (cases "d_channel d = chan")
    case True
    with Cons.prems have a: "items' = [] @ setLoad stats d # items" by simp
    have b: "d # items = [] @ d # items" by simp
    have c: "\<forall>d \<in> set []. d_channel d \<noteq> chan" by simp
    show ?thesis
      by (intro exI conjI) (rule b, rule c, rule True, rule a)
  next
    case False
    with Cons.prems obtain r where r: "scanItems chan stats items = Some r" and i: "items' = d # r"
      by auto
    from Cons.IH [OF r] obtain items1 data items2 where
      s: "items = items1 @ data # items2" and n: "\<forall>d \<in> set items1. d_channel d \<noteq> chan" and
      c: "d_channel data = chan" and r': "r = items1 @ setLoad stats data # items2"
      by blast
    have a: "d # items = (d # items1) @ data # items2"
      using s by simp
    have b: "\<forall>e \<in> set (d # items1). d_channel e \<noteq> chan"
      using n False by simp
    have e: "items' = (d # items1) @ setLoad stats data # items2"
      using i r' by simp
    show ?thesis
      by (intro exI conjI) (rule a, rule b, rule c, rule e)
  qed
qed

lemma scanHistory_cases:
  "scanHistory chan frameNumber stats hist = hist \<or>
   (\<exists>pre items items' post. hist = pre @ (frameNumber, items) # post \<and>
      (\<forall>fd \<in> set pre. fst fd = frameNumber \<longrightarrow> scanItems chan stats (snd fd) = None) \<and>
      scanItems chan stats items = Some items' \<and>
      scanHistory chan frameNumber stats hist = pre @ (frameNumber, items') # post)"
proof (induction hist)
  case Nil
  show ?case by simp
next
  case (Cons fd hist)
  show ?case
  proof (cases "fst fd = frameNumber \<and> scanItems chan stats (snd fd) \<noteq> None")
    case True
    then obtain items' where i: "scanItems chan stats (snd fd) = Some items'"
      by auto
    have a: "fd # hist = [] @ (frameNumber, snd fd) # hist"
      using True by auto
    have b: "\<forall>fd \<in> set []. fst fd = frameNumber \<longrightarrow> scanItems chan stats (snd fd) = None"
      by simp
    have c: "scanHistory chan frameNumber stats (fd # hist) = [] @ (frameNumber, items') # hist"
      using True i by auto
    show ?thesis
      by (intro disjI2 exI conjI) (rule a, rule b, rule i, rule c)
  next
    case False
    then have step: "scanHistory chan frameNumber stats (fd # hist) =
        fd # scanHistory chan frameNumber stats hist"
      by auto
    from Cons.IH show ?thesis
    proof
      assume "scanHistory chan frameNumber stats hist = hist"
      with step show ?thesis by simp
    next
      assume "\<exists>pre items items' post. hist = pre @ (frameNumber, items) # post \<and>
        (\<forall>fd \<in> set pre. fst fd = frameNumber \<longrightarrow> scanItems chan stats (snd fd) = None) \<and>
        scanItems chan stats items = Some items' \<and>
        scanHistory chan frameNumber stats hist = pre @ (frameNumber, items') # post"
      then obtain pre items items' post where
        h: "hist = pre @ (frameNumber, items) # post" and
        p: "\<forall>fd \<in> set pre. fst fd = frameNumber \<longrightarrow> scanItems chan stats (snd fd) = None" and
        i: "scanItems chan stats items = Some items'" and
        r: "scanHistory chan frameNumber stats hist = pre @ (frameNumber, items') # post"
        by blast
      have a: "fd # hist = (fd # pre) @ (frameNumber, items) # post"
        using h by simp
      have b: "\<forall>x \<in> set (fd # pre). fst x = frameNumber \<longrightarrow> scanItems chan stats (snd x) = None"
        using p False by simp
      have c: "scanHistory chan frameNumber stats (fd # hist) = (fd # pre) @ (frameNumber, items') # post"
        using step r by simp
      show ?thesis
        by (intro disjI2 exI conjI) (rule a, rule b, rule i, rule c)
    qed
  qed
qed




subsection \<open>checkHistory\<close>

lemma findUseFrame_set: "useFrame \<noteq> 0 \<Longrightarrow> findUseFrame hist useFrame = useFrame"
  by (cases hist) simp_all

lemma popOld_append:
  "popOld useFrame (xs @ ys) =
     (if popOld useFrame xs = [] then popOld useFrame ys else popOld useFrame xs @ ys)"
  by (induction xs) simp_all

lemma popOld_all: "\<forall>fd \<in> set xs. fst fd < useFrame \<Longrightarrow> popOld useFrame xs = []"
  by (induction xs) simp_all

lemma popOld_zero: "popOld 0 xs = xs"
  by (cases xs) simp_all

lemma popOld_useFrame_front:
  assumes "sorted_wrt (<) (map fst hist)" and "\<exists>fd \<in> set hist. isComplete (snd fd)"
  shows "frontIsUnique (popOld (findUseFrame (rev hist) 0) hist) \<and>
         hd (popOld (findUseFrame (rev hist) 0) hist) \<in> set hist"
  using assms
proof (induction hist rule: rev_induct)
  case Nil
  then show ?case by simp
next
  case (snoc x xs)
  from snoc.prems(1) have sorted: "sorted_wrt (<) (map fst xs)" and
    below: "\<forall>fd \<in> set xs. fst fd < fst x"
    by (simp_all add: sorted_wrt_append)
  show ?case
  proof (cases "isComplete (snd x)")
    case True
    show ?thesis
    proof (cases "fst x = 0")
      case True
      with below have "xs = []" by (cases xs) auto
      with \<open>isComplete (snd x)\<close> True show ?thesis
        by (simp add: frontIsUnique_def)
    next
      case False
      then have "findUseFrame (rev (xs @ [x])) 0 = fst x"
        using True by (simp add: findUseFrame_set)
      moreover have "popOld (fst x) (xs @ [x]) = [x]"
        using below by (simp add: popOld_append popOld_all)
      ultimately show ?thesis
        using True by (simp add: frontIsUnique_def)
    qed
  next
    case False
    with snoc.prems(2) have ex: "\<exists>fd \<in> set xs. isComplete (snd fd)"
      by auto
    from snoc.IH [OF sorted ex] have
      IH: "frontIsUnique (popOld (findUseFrame (rev xs) 0) xs)"
        "hd (popOld (findUseFrame (rev xs) 0) xs) \<in> set xs"
      by simp_all
    from False have "findUseFrame (rev (xs @ [x])) 0 = findUseFrame (rev xs) 0"
      by simp
    moreover from IH(1) have "popOld (findUseFrame (rev xs) 0) xs \<noteq> []"
      by (simp add: frontIsUnique_def)
    ultimately have eq: "popOld (findUseFrame (rev (xs @ [x])) 0) (xs @ [x]) =
        popOld (findUseFrame (rev xs) 0) xs @ [x]"
      by (simp add: popOld_append)
    from IH False show ?thesis
      unfolding eq by (auto simp add: frontIsUnique_def)
  qed
qed

text \<open>
  Claim C5. The histories of the equalizer are empty (before the first frame, and after
  a reset) or begin with a complete record: \<open>checkHistory\<close> leaves a complete record in
  front, \<open>notifyUpdatePre\<close> appends behind it and \<open>notifyLoadData\<close> writes times that are
  \<open>1\<close> or more; the frame numbers of the records increase from frame to frame. For
  every such history, and more generally for every history with increasing frame
  numbers that is empty or holds a complete record somewhere, the front record after
  \<open>checkHistory\<close> is complete and no other record is: it is the synthetic record when
  the history was empty and a record of the history otherwise.
\<close>

theorem checkHistory_front:
  assumes "sorted_wrt (<) (map fst hist)"
    and "hist = [] \<or> (\<exists>fd \<in> set hist. isComplete (snd fd))"
  shows "frontIsUnique (checkHistory hist) \<and>
         (if hist = [] then checkHistory hist = [fakeSet] else hd (checkHistory hist) \<in> set hist)"
proof (cases "hist = []")
  case True
  then show ?thesis
    by (simp add: checkHistory_def frontIsUnique_def fakeSet_def isComplete_def)
next
  case False
  with assms(2) have "\<exists>fd \<in> set hist. isComplete (snd fd)" by simp
  from popOld_useFrame_front [OF assms(1) this] False show ?thesis
    by (simp add: checkHistory_def Let_def frontIsUnique_def)
qed

theorem checkHistory_front_witness:
  "sorted_wrt (<) (map fst [(1::nat, [exData\<lparr>d_time := 4\<rparr>]), (2, [exData\<lparr>d_time := 5\<rparr>]), (3, [exData])]) \<and>
   isComplete (snd (hd [(1::nat, [exData\<lparr>d_time := 4\<rparr>]), (2, [exData\<lparr>d_time := 5\<rparr>]), (3, [exData])])) \<and>
   checkHistory [(1, [exData\<lparr>d_time := 4\<rparr>]), (2, [exData\<lparr>d_time := 5\<rparr>]), (3, [exData])] =
     [(2, [exData\<lparr>d_time := 5\<rparr>]), (3, [exData])] \<and>
   frontIsUnique [(2, [exData\<lparr>d_time := 5\<rparr>]), (3, [exData])]"
  using checkHistory_front [of "[(1, [exData\<lparr>d_time := 4\<rparr>]), (2, [exData\<lparr>d_time := 5\<rparr>]), (3, [exData])]"]
  by (simp add: checkHistory_def isComplete_def ex_simps)

subsection \<open>Target times\<close>

lemma assignTargetTimes_timesAddUp:
  "timesAddUp (fst (assignTargetTimes s t totalTime resourceTime))"
proof (induction t arbitrary: totalTime)
  case (Leaf c i)
  show ?case by (simp add: Let_def)
next
  case (Inner l r i)
  obtain l' t1 where L: "assignTargetTimes s l totalTime resourceTime = (l', t1)"
    by (cases "assignTargetTimes s l totalTime resourceTime")
  obtain r' t2 where R: "assignTargetTimes s r t1 resourceTime = (r', t2)"
    by (cases "assignTargetTimes s r t1 resourceTime")
  from Inner.IH(1) [of totalTime] L have "timesAddUp l'" by simp
  moreover from Inner.IH(2) [of t1] R have "timesAddUp r'" by simp
  ultimately show ?case
    using L R by (cases "n_splitMode i") (simp_all add: Let_def)
qed

lemma assignLeftoverTime_timesAddUp:
  "timesAddUp t \<Longrightarrow> timesAddUp (assignLeftoverTime t time)"
  by (induction t arbitrary: time) (simp_all add: Let_def)

text \<open>
  Claim C6. Whatever the tree, the state and the times handed in, after
  \<open>assignTargetTimes\<close> followed by \<open>assignLeftoverTime\<close> the time of every inner node is
  the sum of the times of its left and right child.
\<close>

theorem times_add_up_after_both_phases:
  "timesAddUp (assignLeftoverTime (fst (assignTargetTimes s t totalTime resourceTime)) leftover)"
  by (rule assignLeftoverTime_timesAddUp) (rule assignTargetTimes_timesAddUp)

text \<open>
  Claim C7, as the code has it. For an inner node whose split mode is \<open>MODE_DB\<close>,
  \<open>assignTargetTimes\<close> leaves \<open>maxSize\<close> as it was (no maximum of the children is
  taken), sets \<open>boundaryf\<close> to the sum of the children's and \<open>boundary2i\<close> to their
  maximum in each component.
\<close>

theorem db_node_aggregates:
  assumes "n_splitMode i = MODE_DB"
  shows "(let T = fst (assignTargetTimes s (Inner l r i) totalTime resourceTime);
              L = nodeInfo (leftNode T); R = nodeInfo (rightNode T)
          in n_maxSize (nodeInfo T) = n_maxSize i \<and>
             n_boundaryf (nodeInfo T) = fl (n_boundaryf L + n_boundaryf R) \<and>
             n_boundary2i (nodeInfo T) =
               (max (fst (n_boundary2i L)) (fst (n_boundary2i R)),
                max (snd (n_boundary2i L)) (snd (n_boundary2i R))))"
  using assms by (simp add: Let_def split: prod.splits)

text \<open>
  The state after \<open>checkHistory\<close> of the first frame, with the tree of the two children:
  the node keeps the \<open>maxSize\<close> of \<open>exNode\<close>.
\<close>

theorem db_node_aggregates_witness:
  "n_splitMode (exNode\<lparr>n_splitMode := MODE_DB, n_time := 0\<rparr>) = MODE_DB \<and>
   eq_history ((exEqualizer MODE_DB 8 4)\<lparr>eq_history := [fakeSet]\<rparr>) = [fakeSet] \<and>
   (let T = fst (assignTargetTimes ((exEqualizer MODE_DB 8 4)\<lparr>eq_history := [fakeSet]\<rparr>)
                   (exTree exNode MODE_DB) 1 (1 / 2))
    in n_maxSize (nodeInfo T) = n_maxSize exNode \<and> n_boundaryf (nodeInfo T) = 1 / 2 \<and>
       n_boundary2i (nodeInfo T) = (1, 1))"
  using db_node_aggregates [of "exNode\<lparr>n_splitMode := MODE_DB, n_time := 0\<rparr>"
      "(exEqualizer MODE_DB 8 4)\<lparr>eq_history := [fakeSet]\<rparr>"
      "Leaf 2 (exNode\<lparr>n_splitMode := MODE_DB\<rparr>)" "Leaf 3 (exNode\<lparr>n_splitMode := MODE_DB\<rparr>)"
      1 "1 / 2"]
  by (simp add: Let_def exTree_def exEqualizer_def exNode_def split: prod.splits)

text \<open>
  The claim as written fails, whatever a new \<^verbatim>\<open>Node\<close> holds. The same tree is given its
  target times in two configurations that differ in the width of the channels, four
  pixels in one and five in the other; the history is the one after \<open>checkHistory\<close> of
  the first frame. The larger width of the two children is \<open>4\<close> in one run and \<open>5\<close> in
  the other, and the \<open>MODE_DB\<close> node above them has the same \<open>maxSize\<close> after both runs:
  it is not the maximum of the children's in one of them at least.
\<close>

theorem db_node_maxSize_counterexample:
  "\<forall>node0.
     (let T4 = fst (assignTargetTimes ((exEqualizer MODE_DB 8 4)\<lparr>eq_history := [fakeSet]\<rparr>)
                      (exTree node0 MODE_DB) 1 (1 / 2));
          T5 = fst (assignTargetTimes ((exEqualizer MODE_DB 8 5)\<lparr>eq_history := [fakeSet]\<rparr>)
                      (exTree node0 MODE_DB) 1 (1 / 2))
      in max (fst (n_maxSize (nodeInfo (leftNode T4)))) (fst (n_maxSize (nodeInfo (rightNode T4)))) = 4 \<and>
         max (fst (n_maxSize (nodeInfo (leftNode T5)))) (fst (n_maxSize (nodeInfo (rightNode T5)))) = 5 \<and>
         n_maxSize (nodeInfo T4) = n_maxSize (nodeInfo T5))"
  by (simp add: Let_def exTree_def exEqualizer_def split: prod.splits)

subsection \<open>notifyUpdatePre\<close>

text \<open>
  Claim C9. When no tree has been built and the compound has no children,
  \<open>notifyUpdatePre\<close> returns at once: the state that comes back is the state that went in
  (no tree, history untouched, no record pushed, no compound changed).
\<close>

theorem notifyUpdatePre_leaf_compound:
  assumes "eq_tree s = None" and "c_children (compounds s compound) = []"
  shows "notifyUpdatePre s compound frameNumber = Some s"
  using assms by (simp add: notifyUpdatePre_def)

text \<open>An equalizer on compound \<open>2\<close>, which has no children.\<close>

theorem notifyUpdatePre_leaf_compound_witness:
  "eq_tree ((exEqualizer MODE_2D 8 4)\<lparr>eq_compound := 2\<rparr>) = None \<and>
   c_children (compounds ((exEqualizer MODE_2D 8 4)\<lparr>eq_compound := 2\<rparr>) 2) = [] \<and>
   notifyUpdatePre ((exEqualizer MODE_2D 8 4)\<lparr>eq_compound := 2\<rparr>) 2 7 =
     Some ((exEqualizer MODE_2D 8 4)\<lparr>eq_compound := 2\<rparr>)"
  using notifyUpdatePre_leaf_compound [of "(exEqualizer MODE_2D 8 4)\<lparr>eq_compound := 2\<rparr>" 2 7]
  by (simp add: exEqualizer_def exCompounds_def exChild_def)

text \<open>
  Claim C8. When the tree exists and the equalizer is frozen or the compound is not
  running, \<open>notifyUpdatePre\<close> only checks the history: the history becomes
  \<open>checkHistory\<close> of the old one (no record is pushed), and nothing else in the state
  changes (no split, every compound keeps its viewport and range).
\<close>

theorem notifyUpdatePre_frozen:
  assumes "eq_tree s = Some t" and "eq_frozen s \<or> \<not> c_running (compounds s compound)"
  shows "notifyUpdatePre s compound frameNumber =
           Some (s\<lparr>eq_history := checkHistory (eq_history s)\<rparr>)"
  using assms by (auto simp add: notifyUpdatePre_def Let_def)

theorem notifyUpdatePre_frozen_witness:
  "eq_tree ((exEqualizer MODE_VERTICAL 8 4)\<lparr>eq_tree := Some (exTree exNode MODE_VERTICAL), eq_frozen := True\<rparr>)
     = Some (exTree exNode MODE_VERTICAL) \<and>
   eq_frozen ((exEqualizer MODE_VERTICAL 8 4)\<lparr>eq_tree := Some (exTree exNode MODE_VERTICAL), eq_frozen := True\<rparr>) \<and>
   notifyUpdatePre ((exEqualizer MODE_VERTICAL 8 4)\<lparr>eq_tree := Some (exTree exNode MODE_VERTICAL), eq_frozen := True\<rparr>) 1 7
     = Some ((exEqualizer MODE_VERTICAL 8 4)\<lparr>eq_tree := Some (exTree exNode MODE_VERTICAL), eq_frozen := True,
               eq_history := [fakeSet]\<rparr>)"
  using notifyUpdatePre_frozen [of "(exEqualizer MODE_VERTICAL 8 4)\<lparr>eq_tree := Some (exTree exNode MODE_VERTICAL), eq_frozen := True\<rparr>"
      "exTree exNode MODE_VERTICAL" 1 7]
  by (simp add: exEqualizer_def checkHistory_def)

subsection \<open>The first scenario\<close>

lemma fl_small: "fl (1 / 10000) = 13743895 / 2 ^ 37"
proof -
  have "fl (1 / 10000) = of_int (roundEven ((1 / 10000) / 2 powr of_int (- 14 - 23))) * 2 powr of_int (- 14 - 23)"
    by (rule fl_binade) (simp_all add: powr_minus_divide)
  also have "(1 / 10000 :: real) / 2 powr of_int (- 14 - 23) = 137438953472 / 10000"
    by (simp add: powr_minus_divide)
  also have "roundEven (137438953472 / 10000) = 13743895"
    by (simp add: roundEven_def)
  finally show ?thesis
    by (simp add: powr_minus_divide)
qed

lemma fl_small_pos: "0 < fl (1 / 10000)"
  by (simp add: fl_small)

lemma splitLoopX_uniform:
  assumes "d_vp d = Viewport_FULL" and "d_load d = 1"
  shows "splitLoopX Viewport_FULL (1 / 2) 0 [d] = Some (1 / 2)"
proof -
  have one: "splitLoopX Viewport_FULL (1 / 2) 0 [d] = splitLoopX Viewport_FULL 0 (1 / 2) [d]"
    by (subst splitLoopX.simps)
       (simp add: assms epsilon_def pruneX_def nextPosX_def getXEnd_def getYEnd_def Viewport_FULL_def Let_def)
  have two: "splitLoopX Viewport_FULL 0 (1 / 2) [d] = Some (1 / 2)"
    by (subst splitLoopX.simps) (simp add: epsilon_def)
  show ?thesis
    by (simp only: one two)
qed

lemma to_uint32_half: "0 \<le> k \<Longrightarrow> k < 2 ^ 24 \<Longrightarrow> to_uint32 (of_int k + 1 / 2) = Some (nat k)"
proof -
  assume k: "0 \<le> k" "k < 2 ^ 24"
  have fl: "\<lfloor>of_int k + (1 / 2 :: real)\<rfloor> = k"
    by (simp add: floor_eq_iff)
  have "(of_int k :: real) < of_int (2 ^ 24)"
    using k(2) by (simp only: of_int_less_iff)
  then have "of_int k + (1 / 2 :: real) < 2 ^ 32"
    by simp
  moreover have "- 1 < of_int k + (1 / 2 :: real)"
    using k(1) by simp
  ultimately show ?thesis
    by (simp only: to_uint32_def fl) simp
qed

lemma pow_bound: "m \<le> 21 \<Longrightarrow> (2 :: int) ^ m \<le> 2097152"
  using power_increasing [of m 21 "2 :: int"] by simp

lemma fl_pvpW: "m \<le> 21 \<Longrightarrow> fl (of_int (4 * 2 ^ m)) = 4 * 2 ^ m"
  using fl_int [of "4 * 2 ^ m"] pow_bound [of m] by simp

lemma fl_boundary: "m \<le> 21 \<Longrightarrow> fl (1 / (2 * 2 ^ m)) = 1 / (2 * 2 ^ m)"
  using fl_dyadic [of 1 "m + 1"] by simp

lemma fl_maxSize:
  assumes "m \<le> 21" and "0 \<le> c" and "c < 2 ^ 24"
  shows "fl (fl (of_int c) / (4 * 2 ^ m)) = of_int c / (4 * 2 ^ m)"
proof -
  have c: "\<bar>c\<bar> < 2 ^ 24"
    using assms(2,3) by simp
  have "fl (of_int c / 2 ^ (m + 2)) = of_int c / 2 ^ (m + 2)"
    using c assms(1) by (intro fl_dyadic) simp_all
  then show ?thesis
    by (simp add: fl_int [OF c] mult.commute)
qed

lemma maxSize_ge:
  assumes "2 * 2 ^ m \<le> c"
  shows "\<not> (1 / 2 :: real) > of_int c / (4 * 2 ^ m)"
proof -
  have "(of_int (2 * 2 ^ m) :: real) \<le> of_int c"
    using assms by (simp only: of_int_le_iff)
  then show ?thesis
    by (simp add: field_simps)
qed

lemma fl_quotient: "m \<le> 21 \<Longrightarrow> fl (2 ^ m) = 2 ^ m"
  using fl_int [of "2 ^ m"] pow_bound [of m] by simp

lemma fl_quotient_half: "m \<le> 21 \<Longrightarrow> fl (2 ^ m + 1 / 2) = 2 ^ m + 1 / 2"
  using fl_dyadic [of "2 * 2 ^ m + 1" 1] pow_bound [of m] by (simp add: field_simps)

lemma to_uint32_quotient: "m \<le> 21 \<Longrightarrow> to_uint32 (2 ^ m + 1 / 2) = Some (2 ^ m)"
  using to_uint32_half [of "2 ^ m"] pow_bound [of m] by (simp add: nat_power_eq)

lemma clampX_uniform:
  assumes "fst (n_boundary2i i) = 2" and "n_usage L \<noteq> 0" and "n_usage R \<noteq> 0"
    and "m \<le> 21"
    and "2 * 2 ^ m \<le> fst (n_maxSize L)" and "fst (n_maxSize L) < 2 ^ 24"
    and "2 * 2 ^ m \<le> fst (n_maxSize R)" and "fst (n_maxSize R) < 2 ^ 24"
  shows "clampX i L R Viewport_FULL (fl (of_int (4 * 2 ^ m))) (1 / 2) = Some (1 / 2)"
proof -
  have posL: "0 \<le> fst (n_maxSize L)" and posR: "0 \<le> fst (n_maxSize R)"
    using assms(5,7) zero_le_power [of "2 :: int" m] by linarith+
  have ble: "\<not> (1 / 2 :: real) < 1 / (2 * 2 ^ m)"
    by (simp add: field_simps not_less)
  have mul: "fl (2 ^ m * (1 / (2 * 2 ^ m))) = 1 / 2"
    by simp
  note maxL = fl_maxSize [OF assms(4) posL assms(6)] maxSize_ge [OF assms(5)]
  note maxR = fl_maxSize [OF assms(4) posR assms(8)] maxSize_ge [OF assms(7)]
  show ?thesis
    unfolding clampX_def Let_def fl_pvpW [OF assms(4)]
    using assms(1-3) ble maxL maxR mul
    by (simp add: getXEnd_def Viewport_FULL_def fl_boundary [OF assms(4)] fl_quotient [OF assms(4)]
        fl_quotient_half [OF assms(4)] to_uint32_quotient [OF assms(4)])
qed

lemma fl_82: "fl (1 / 82) = 3273603 / 268435456"
proof -
  have "fl (1 / 82) = of_int (roundEven ((1 / 82) / 2 powr of_int (- 7 - 23))) * 2 powr of_int (- 7 - 23)"
    by (rule fl_binade) (simp_all add: powr_minus_divide)
  also have "(1 / 82 :: real) / 2 powr of_int (- 7 - 23) = 1073741824 / 82"
    by (simp add: powr_minus_divide)
  also have "roundEven (1073741824 / 82) = 13094412"
    by (simp add: roundEven_def)
  finally show ?thesis
    by (simp add: powr_minus_divide)
qed

lemma fl_41: "fl (134217728 / 3273603) = 41"
proof -
  have "fl (134217728 / 3273603) =
      of_int (roundEven ((134217728 / 3273603) / 2 powr of_int (5 - 23))) * 2 powr of_int (5 - 23)"
    by (rule fl_binade) (simp_all add: powr_minus_divide)
  also have "(134217728 / 3273603 :: real) / 2 powr of_int (5 - 23) = 35184372088832 / 3273603"
    by (simp add: powr_minus_divide)
  also have "roundEven (35184372088832 / 3273603) = 10747904"
    by (simp add: roundEven_def)
  finally show ?thesis
    by (simp add: powr_minus_divide)
qed

lemma fl_below_half: "fl (134217723 / 268435456) = 16777215 / 33554432"
proof -
  have "fl (134217723 / 268435456) =
      of_int (roundEven ((134217723 / 268435456) / 2 powr of_int (- 2 - 23))) * 2 powr of_int (- 2 - 23)"
    by (rule fl_binade) (simp_all add: powr_minus_divide)
  also have "(134217723 / 268435456 :: real) / 2 powr of_int (- 2 - 23) = 134217723 / 8"
    by (simp add: powr_minus_divide)
  also have "roundEven (134217723 / 8) = 16777215"
    by (simp add: roundEven_def)
  finally show ?thesis
    by (simp add: powr_minus_divide)
qed

lemma fl_rest: "fl (16777217 / 33554432) = 1 / 2"
proof -
  have "fl (16777217 / 33554432) =
      of_int (roundEven ((16777217 / 33554432) / 2 powr of_int (- 1 - 23))) * 2 powr of_int (- 1 - 23)"
    by (rule fl_binade) (simp_all add: powr_minus_divide)
  also have "(16777217 / 33554432 :: real) / 2 powr of_int (- 1 - 23) = 16777217 / 2"
    by (simp add: powr_minus_divide)
  also have "roundEven (16777217 / 2) = 8388608"
    by (simp add: roundEven_def)
  finally show ?thesis
    by (simp add: powr_minus_divide)
qed

lemma fl_end: "fl (33554431 / 33554432) = 1"
proof -
  have "fl (33554431 / 33554432) =
      of_int (roundEven ((33554431 / 33554432) / 2 powr of_int (- 1 - 23))) * 2 powr of_int (- 1 - 23)"
    by (rule fl_binade) (simp_all add: powr_minus_divide)
  also have "(33554431 / 33554432 :: real) / 2 powr of_int (- 1 - 23) = 33554431 / 2"
    by (simp add: powr_minus_divide)
  also have "roundEven (33554431 / 2) = 16777216"
    by (simp add: roundEven_def)
  finally show ?thesis
    by (simp add: powr_minus_divide)
qed

lemma fl_below_half_exact: "fl (16777215 / 33554432) = 16777215 / 33554432"
  using fl_dyadic [of 16777215 25] by simp

lemma clampX_164:
  assumes "fst (n_boundary2i i) = 2" and "n_usage L = 1" and "n_usage R = 1"
    and "fst (n_maxSize L) = 82" and "fst (n_maxSize R) = 82"
  shows "clampX i L R Viewport_FULL (fl (of_int 164)) (1 / 2) = Some (16777215 / 33554432)"
proof -
  have h: "fl (83 / 2) = 83 / 2"
    using fl_dyadic [of 83 1] by simp
  have r: "to_uint32 (83 / 2) = Some 41"
    by (simp add: to_uint32_def)
  show ?thesis
    unfolding clampX_def Let_def
    using assms
    by (simp add: getXEnd_def Viewport_FULL_def h r fl_82 fl_41 fl_below_half)
qed

lemma computeSplit_uniform:
  assumes tree: "eq_tree s = Some (Inner (Leaf c1 i1) (Leaf c2 i2) i0)"
    and vert: "n_splitMode i0 = MODE_VERTICAL"
    and conf: "eq_mode s = MODE_VERTICAL" "eq_damping s = 0" "eq_boundary2i s = (1, 1)"
    and kids: "c_children (compounds s (eq_compound s)) = [c1, c2]" "c1 \<noteq> c2"
    and run: "c_running (compounds s c1)" "c_running (compounds s c2)"
    and use: "c_usage (compounds s c1) = 1" "c_usage (compounds s c2) = 1"
    and hist: "eq_history s = (f, [d]) # rest" "rest \<noteq> []"
    and obs: "d_vp d = Viewport_FULL" "d_range d = Range_ALL" "d_load d = 1" "d_time d = 1"
    and clamp: "\<And>j0 j1 j2. fst (n_boundary2i j0) = 2 \<Longrightarrow> n_usage j1 = 1 \<Longrightarrow> n_usage j2 = 1 \<Longrightarrow>
        fst (n_maxSize j1) = fst (chanPVP s (c_channel (compounds s c1))) \<Longrightarrow>
        fst (n_maxSize j2) = fst (chanPVP s (c_channel (compounds s c2))) \<Longrightarrow>
        clampX j0 j1 j2 Viewport_FULL
          (fl (of_int (fst (c_inheritPVP (compounds s (eq_compound s)))))) (1 / 2) = Some sp"
    and exact: "fl sp = sp"
    and reach: "\<not> fl (sp + fl (1 - sp)) < 1"
  shows "\<exists>s'. computeSplit s = Some s' \<and>
           viewportOf c1 s' = \<lparr>vp_x = 0, vp_y = 0, vp_w = sp, vp_h = 1\<rparr> \<and>
           viewportOf c2 s' = \<lparr>vp_x = sp, vp_y = 0, vp_w = fl (1 - sp), vp_h = 1\<rparr>"
proof -
  have items: "removeEmpty [d] = [d]"
    by (simp add: removeEmpty_def obs hasArea_def hasData_def Viewport_FULL_def Range_ALL_def)
  have front: "frontItems s = [d]"
    by (simp add: frontItems_def hist)
  have sorted: "sortData MODE_VERTICAL [d] MODE_VERTICAL = [d]"
    by (simp add: sortData_def)
  define j1 where "j1 = i1\<lparr>n_maxSize := chanPVP s (c_channel (compounds s c1)),
      n_boundaryf := eq_boundaryf s, n_boundary2i := (1, 1), n_time := 1 / 2, n_usage := 1\<rparr>"
  define j2 where "j2 = i2\<lparr>n_maxSize := chanPVP s (c_channel (compounds s c2)),
      n_boundaryf := eq_boundaryf s, n_boundary2i := (1, 1), n_time := 1 / 2, n_usage := 1\<rparr>"
  define j0 where "j0 = i0\<lparr>n_time := 1, n_usage := 2,
      n_maxSize := (fst (n_maxSize j1) + fst (n_maxSize j2), min (snd (n_maxSize j1)) (snd (n_maxSize j2))),
      n_boundary2i := (2, 1), n_boundaryf := eq_boundaryf s\<rparr>"
  have left: "assignTargetTimes s (Leaf c1 i1) 1 (1 / 2) = (Leaf c1 j1, 1 / 2)"
    by (simp add: Let_def run use conf front j1_def split: option.split)
  have right: "assignTargetTimes s (Leaf c2 i2) (1 / 2) (1 / 2) = (Leaf c2 j2, 0)"
    by (simp add: Let_def run use conf front j2_def split: option.split)
  have both: "assignTargetTimes s (Inner (Leaf c1 i1) (Leaf c2 i2) i0) 1 (1 / 2) =
      (Inner (Leaf c1 j1) (Leaf c2 j2) j0, 0)"
    by (simp only: assignTargetTimes.simps(2) left right prod.case Let_def nodeInfo.simps vert
        Mode.case) (simp add: j0_def j1_def j2_def)
  have leftover: "assignLeftoverTime (Inner (Leaf c1 j1) (Leaf c2 j2) j0) 0 =
      Inner (Leaf c1 j1) (Leaf c2 j2) j0"
    using fl_small_pos by (simp add: Let_def j0_def j1_def j2_def)
  define s2 where "s2 = s\<lparr>eq_tree := Some (Inner (Leaf c1 j1) (Leaf c2 j2) j0)\<rparr>"
  define vpL where "vpL = \<lparr>vp_x = 0, vp_y = 0, vp_w = sp, vp_h = 1 :: real\<rparr>"
  define vpR where "vpR = \<lparr>vp_x = sp, vp_y = 0, vp_w = fl (1 - sp), vp_h = 1 :: real\<rparr>"
  have loop: "splitLoopX Viewport_FULL (n_time j1) (vp_x Viewport_FULL) [d] = Some (1 / 2)"
    using splitLoopX_uniform [OF obs(1,3)] by (simp add: j1_def Viewport_FULL_def)
  have clamp': "clampX j0 j1 j2 Viewport_FULL
      (fl (of_int (fst (c_inheritPVP (compounds s2 (eq_compound s2)))))) (1 / 2) = Some sp"
  proof -
    have "clampX j0 j1 j2 Viewport_FULL
        (fl (of_int (fst (c_inheritPVP (compounds s (eq_compound s)))))) (1 / 2) = Some sp"
      by (rule clamp) (simp_all add: j0_def j1_def j2_def)
    then show ?thesis
      by (simp add: s2_def)
  qed
  have childL: "Viewport_FULL\<lparr>vp_w := fl (sp - vp_x Viewport_FULL)\<rparr> = vpL"
    by (simp add: Viewport_FULL_def vpL_def exact)
  obtain s3 where s3: "assignLeaf s2 c1 vpL Range_ALL = Some s3"
    and s3c: "compounds s3 = (compounds s2)(c1 := (compounds s2 c1)\<lparr>c_vp := vpL, c_range := Range_ALL\<rparr>)"
    and s3h: "eq_history s3 \<noteq> []"
    by (simp add: assignLeaf_def pushItem_def Let_def s2_def hist)
  have xend: "getXEnd Viewport_FULL = 1" "getXEnd vpL = sp"
    by (simp_all add: getXEnd_def Viewport_FULL_def vpL_def exact)
  have childR: "vpL\<lparr>vp_x := sp, vp_w := fl (1 - sp)\<rparr> = vpR"
    by (simp add: vpL_def vpR_def)
  have grow: "growW sp (fl (1 - sp)) 1 = Some (fl (1 - sp))"
    by (subst growW.simps) (simp add: reach)
  have same: "vpR\<lparr>vp_w := fl (1 - sp)\<rparr> = vpR"
    by (simp add: vpR_def)
  obtain s4 where s4: "assignLeaf s3 c2 vpR Range_ALL = Some s4"
    and s4c: "compounds s4 = (compounds s3)(c2 := (compounds s3 c2)\<lparr>c_vp := vpR, c_range := Range_ALL\<rparr>)"
    using s3h by (simp add: assignLeaf_def pushItem_def Let_def)
  have node: "computeSplitNode (sortData MODE_VERTICAL [d]) (Inner (Leaf c1 j1) (Leaf c2 j2) j0)
      Viewport_FULL Range_ALL s2 = Some s4"
  proof -
    have mode: "n_splitMode j0 = MODE_VERTICAL"
      by (simp add: j0_def vert)
    show ?thesis
      by (simp add: mode sorted loop clamp' childL s3 Let_def xend childR grow same s4)
  qed
  have total: "foldl (\<lambda>total data. wrap64 (total + d_time data)) 0 [d] = 1"
    by (simp add: obs wrap64_def)
  have nres: "foldl (\<lambda>n child. if c_running (compounds s child)
                                 then fl (n + c_usage (compounds s child)) else n) 0 [c1, c2] = 2"
    by (simp add: run use)
  have cs: "computeSplit s = Some s4"
    unfolding computeSplit_def tree option.case hist list.case snd_conv items Let_def conf(1) kids(1)
      total nres of_int_1 fl_numeral both prod.case leftover
    by (rule node [unfolded s2_def])
  have l: "viewportOf c1 s4 = vpL" and r: "viewportOf c2 s4 = vpR"
    using kids(2) by (simp_all add: s4c s3c viewportOf_def)
  show ?thesis
    by (intro exI conjI) (rule cs, rule l [unfolded vpL_def], rule r [unfolded vpR_def])
qed

lemma notifyUpdatePre_uniform:
  assumes conf: "eq_mode s = MODE_VERTICAL" "eq_damping s = 0" "eq_boundary2i s = (1, 1)"
      "\<not> eq_frozen s"
    and top: "eq_compound s = c0" "c_running (compounds s c0)"
      "c_children (compounds s c0) = [c1, c2]" "c1 \<noteq> c2"
    and tree: "eq_tree s = None \<or>
      (\<exists>i1 i2 i0. eq_tree s = Some (Inner (Leaf c1 i1) (Leaf c2 i2) i0) \<and> n_splitMode i0 = MODE_VERTICAL)"
    and run: "c_running (compounds s c1)" "c_running (compounds s c2)"
    and use: "c_usage (compounds s c1) = 1" "c_usage (compounds s c2) = 1"
    and hist: "checkHistory (eq_history s) = (f, [d]) # rest"
    and obs: "d_vp d = Viewport_FULL" "d_range d = Range_ALL" "d_load d = 1" "d_time d = 1"
    and clamp: "\<And>j0 j1 j2. fst (n_boundary2i j0) = 2 \<Longrightarrow> n_usage j1 = 1 \<Longrightarrow> n_usage j2 = 1 \<Longrightarrow>
        fst (n_maxSize j1) = fst (chanPVP s (c_channel (compounds s c1))) \<Longrightarrow>
        fst (n_maxSize j2) = fst (chanPVP s (c_channel (compounds s c2))) \<Longrightarrow>
        clampX j0 j1 j2 Viewport_FULL (fl (of_int (fst (c_inheritPVP (compounds s c0))))) (1 / 2)
          = Some sp"
    and exact: "fl sp = sp"
    and reach: "\<not> fl (sp + fl (1 - sp)) < 1"
  shows "\<exists>s'. notifyUpdatePre s c0 frameNumber = Some s' \<and>
           viewportOf c1 s' = \<lparr>vp_x = 0, vp_y = 0, vp_w = sp, vp_h = 1\<rparr> \<and>
           viewportOf c2 s' = \<lparr>vp_x = sp, vp_y = 0, vp_w = fl (1 - sp), vp_h = 1\<rparr>"
proof -
  obtain s1 i1 i2 i0 where
    s1: "(if eq_tree s = None
          then map_option
                 (\<lambda>tree. s\<lparr>eq_tree := Some tree,
                            listening := listening s @
                              map (\<lambda>c. c_channel (compounds s c)) (leafCompounds tree)\<rparr>)
                 (buildTree (new_Node s) (eq_mode s) [c1, c2])
          else Some s) = Some s1"
    and t1: "eq_tree s1 = Some (Inner (Leaf c1 i1) (Leaf c2 i2) i0)" "n_splitMode i0 = MODE_VERTICAL"
    and fields: "eq_mode s1 = eq_mode s" "eq_damping s1 = eq_damping s"
      "eq_boundary2i s1 = eq_boundary2i s" "eq_frozen s1 = eq_frozen s"
      "eq_compound s1 = eq_compound s" "compounds s1 = compounds s" "chanPVP s1 = chanPVP s"
      "eq_history s1 = eq_history s"
  proof (cases "eq_tree s = None")
    case True
    show ?thesis
      by (rule that [of "s\<lparr>eq_tree := Some (Inner
              (Leaf c1 ((new_Node s)\<lparr>n_splitMode := MODE_VERTICAL\<rparr>))
              (Leaf c2 ((new_Node s)\<lparr>n_splitMode := MODE_VERTICAL\<rparr>))
              ((new_Node s)\<lparr>n_splitMode := MODE_VERTICAL, n_time := 0\<rparr>)),
            listening := listening s @ [c_channel (compounds s c1), c_channel (compounds s c2)]\<rparr>"
            "(new_Node s)\<lparr>n_splitMode := MODE_VERTICAL\<rparr>" "(new_Node s)\<lparr>n_splitMode := MODE_VERTICAL\<rparr>"
            "(new_Node s)\<lparr>n_splitMode := MODE_VERTICAL, n_time := 0\<rparr>"])
         (simp_all add: True conf(1) Let_def)
  next
    case False
    with tree obtain i1 i2 i0 where
      "eq_tree s = Some (Inner (Leaf c1 i1) (Leaf c2 i2) i0)" "n_splitMode i0 = MODE_VERTICAL"
      by blast
    then show ?thesis
      by (intro that [of s i1 i2 i0]) simp_all
  qed
  define s3 where "s3 = s1\<lparr>eq_history := checkHistory (eq_history s1) @ [(frameNumber, [])]\<rparr>"
  have step: "notifyUpdatePre s c0 frameNumber = computeSplit s3"
    unfolding notifyUpdatePre_def Let_def top(3) s1 option.case
    using conf(4) top(2) tree by (auto simp add: fields s3_def)
  have "\<exists>s'. computeSplit s3 = Some s' \<and>
           viewportOf c1 s' = \<lparr>vp_x = 0, vp_y = 0, vp_w = sp, vp_h = 1\<rparr> \<and>
           viewportOf c2 s' = \<lparr>vp_x = sp, vp_y = 0, vp_w = fl (1 - sp), vp_h = 1\<rparr>"
  proof (rule computeSplit_uniform [where f = f and d = d and rest = "rest @ [(frameNumber, [])]"
        and ?i1.0 = i1 and ?i2.0 = i2 and ?i0.0 = i0])
    show "eq_tree s3 = Some (Inner (Leaf c1 i1) (Leaf c2 i2) i0)"
      by (simp add: s3_def t1)
    show "eq_history s3 = (f, [d]) # rest @ [(frameNumber, [])]"
      by (simp add: s3_def fields hist)
    show "\<And>j0 j1 j2. fst (n_boundary2i j0) = 2 \<Longrightarrow> n_usage j1 = 1 \<Longrightarrow> n_usage j2 = 1 \<Longrightarrow>
        fst (n_maxSize j1) = fst (chanPVP s3 (c_channel (compounds s3 c1))) \<Longrightarrow>
        fst (n_maxSize j2) = fst (chanPVP s3 (c_channel (compounds s3 c2))) \<Longrightarrow>
        clampX j0 j1 j2 Viewport_FULL
          (fl (of_int (fst (c_inheritPVP (compounds s3 (eq_compound s3)))))) (1 / 2) = Some sp"
      using clamp by (simp add: s3_def fields top(1))
  qed (simp_all add: s3_def fields t1 conf top run use obs exact reach)
  then show ?thesis
    by (simp only: step)
qed

lemma exS1_history: "checkHistory (eq_history (exS1 rw cw)) = (1, [exObs]) # []"
  by (simp add: exS1_def exObs_def checkHistory_def isComplete_def)




text \<open>The run of the first scenario for a given result of the clamp.\<close>

lemma exS1_run:
  assumes "\<And>j0 j1 j2. fst (n_boundary2i j0) = 2 \<Longrightarrow> n_usage j1 = 1 \<Longrightarrow> n_usage j2 = 1 \<Longrightarrow>
        fst (n_maxSize j1) = cw \<Longrightarrow> fst (n_maxSize j2) = cw \<Longrightarrow>
        clampX j0 j1 j2 Viewport_FULL (fl (of_int rw)) (1 / 2) = Some sp"
    and "fl sp = sp" and "\<not> fl (sp + fl (1 - sp)) < 1"
  shows "map_option (viewportOf 2) (notifyUpdatePre (exS1 rw cw) 1 2) =
           Some \<lparr>vp_x = 0, vp_y = 0, vp_w = sp, vp_h = 1\<rparr> \<and>
         map_option (viewportOf 3) (notifyUpdatePre (exS1 rw cw) 1 2) =
           Some \<lparr>vp_x = sp, vp_y = 0, vp_w = fl (1 - sp), vp_h = 1\<rparr>"
proof -
  have "\<exists>s'. notifyUpdatePre (exS1 rw cw) 1 2 = Some s' \<and>
           viewportOf 2 s' = \<lparr>vp_x = 0, vp_y = 0, vp_w = sp, vp_h = 1\<rparr> \<and>
           viewportOf 3 s' = \<lparr>vp_x = sp, vp_y = 0, vp_w = fl (1 - sp), vp_h = 1\<rparr>"
  proof (rule notifyUpdatePre_uniform [where f = 1 and d = exObs and rest = "[]"])
    show "checkHistory (eq_history (exS1 rw cw)) = [(1, [exObs])]"
      by (rule exS1_history)
    show "\<And>j0 j1 j2. fst (n_boundary2i j0) = 2 \<Longrightarrow> n_usage j1 = 1 \<Longrightarrow> n_usage j2 = 1 \<Longrightarrow>
        fst (n_maxSize j1) = fst (chanPVP (exS1 rw cw) (c_channel (compounds (exS1 rw cw) 2))) \<Longrightarrow>
        fst (n_maxSize j2) = fst (chanPVP (exS1 rw cw) (c_channel (compounds (exS1 rw cw) 3))) \<Longrightarrow>
        clampX j0 j1 j2 Viewport_FULL
          (fl (of_int (fst (c_inheritPVP (compounds (exS1 rw cw) 1))))) (1 / 2) = Some sp"
      using assms(1)
      by (simp add: exS1_def exEqualizer_def exCompounds_def exRoot_def)
    show "fl sp = sp"
      by (rule assms(2))
    show "\<not> fl (sp + fl (1 - sp)) < 1"
      by (rule assms(3))
  qed (simp_all add: exS1_def exEqualizer_def exCompounds_def exRoot_def exChild_def exObs_def)
  then obtain s' where "notifyUpdatePre (exS1 rw cw) 1 2 = Some s'"
    "viewportOf 2 s' = \<lparr>vp_x = 0, vp_y = 0, vp_w = sp, vp_h = 1\<rparr>"
    "viewportOf 3 s' = \<lparr>vp_x = sp, vp_y = 0, vp_w = fl (1 - sp), vp_h = 1\<rparr>"
    by (elim exE conjE)
  then show ?thesis
    by simp
qed



end
